theory Spec2Isabelle
  imports
    Main
    "HOL-Library.AList"
    "HOL-Library.Char_ord"
    "HOL-Library.List_Lexorder"
begin

section \<open>Plugin resolution and loading (package plugins of godel)\<close>

text \<open>
  The development embeds \<^verbatim>\<open>LoadPluginsTasks\<close>, \<^verbatim>\<open>resolvePlugins\<close>,
  \<^verbatim>\<open>verifyPluginCompatibility\<close>, \<^verbatim>\<open>verifySinglePluginCompatibility\<close>,
  \<^verbatim>\<open>sortLocators\<close>, \<^verbatim>\<open>pluginPath\<close> and \<^verbatim>\<open>pluginFileName\<close>.
  Go strings are byte strings and are compared bytewise, which is the lexicographic order
  on \<^typ>\<open>string\<close>. A Go map is an association list with distinct keys; the order of
  the list stands for one order in which \<^verbatim>\<open>range\<close> may visit the map. A Go error
  value is its message. A call of a method on an absent (nil) map entry panics: functions in
  which that can happen return an option, \<open>None\<close> being the panic.
\<close>

subsection \<open>Data model\<close>

record locator =
  Group :: string
  Product :: string
  Version :: string

type_synonym osArch = "string \<times> string"

record locatorWithChecksums =
  Locator :: locator
  Checksums :: "osArch \<rightharpoonup> string"

record pluginConfig =
  LocatorWithChecksums :: locatorWithChecksums
  Resolver :: string

record projectParams =
  DefaultResolvers :: "string list"
  Plugins :: "pluginConfig list"

record globalFlagOptions =
  DebugFlag :: string
  ProjectDirFlag :: string
  GodelConfigFlag :: string
  ConfigFlag :: string

record taskInfo =
  TaskName :: string
  TaskDescription :: string
  Command :: string
  GlobalFlagOptions :: "globalFlagOptions option"
  ApplyFalseArgs :: "string list option"

text \<open>
  \<^verbatim>\<open>godellauncher.Task\<close>: the name and description the launcher lists, and what the
  task's invoker has captured: the plugin's executable, its configuration file name and the
  declared task.
\<close>

record task =
  Name :: string
  Description :: string
  ExecPath :: string
  ConfigFile :: string
  Declared :: taskInfo

record pluginInfo =
  ConfigFileName :: string
  TaskInfos :: "taskInfo list"

type_synonym 'v locmap = "(locator \<times> 'v) list"

definition indentSpaces :: nat where
  "indentSpaces = 4"

definition newline :: string where
  "newline = [CHR 0x0A]"

definition spaces :: "nat \<Rightarrow> string" where
  "spaces n = replicate n CHR '' ''"

text \<open>
  Modelled from the spec: \<^verbatim>\<open>locator.String\<close> is not among the sources; the rendered
  string form of a locator is \<^verbatim>\<open>group:product:version\<close>.
\<close>

definition String :: "locator \<Rightarrow> string" where
  "String l = Group l @ '':'' @ Product l @ '':'' @ Version l"

text \<open>
  Modelled from the spec: \<^verbatim>\<open>pluginapi.Info.Tasks\<close> is not among the sources; each
  declared task yields one runnable task, bound to the plugin's executable, in the order of
  declaration.
\<close>

definition Tasks :: "pluginInfo \<Rightarrow> string \<Rightarrow> task list" where
  "Tasks info pluginExecPath =
     map (\<lambda>ti. \<lparr>Name = TaskName ti, Description = TaskDescription ti,
                ExecPath = pluginExecPath, ConfigFile = ConfigFileName info, Declared = ti\<rparr>)
         (TaskInfos info)"

subsection \<open>Formatting\<close>

text \<open>\<^verbatim>\<open>%d\<close> of a length.\<close>

definition digit :: "nat \<Rightarrow> char" where
  "digit d = ''0123456789'' ! d"

fun digits :: "nat \<Rightarrow> string" where
  "digits n = (if n < 10 then [digit n] else digits (n div 10) @ [digit (n mod 10)])"

declare digits.simps [simp del]

text \<open>\<^verbatim>\<open>strings.Join\<close>.\<close>

fun Join :: "string list \<Rightarrow> string \<Rightarrow> string" where
  "Join [] sep = []"
| "Join [a] sep = a"
| "Join (a # b # rest) sep = a @ sep @ Join (b # rest) sep"

text \<open>\<^verbatim>\<open>%v\<close> of a slice of strings: the elements between brackets, separated by a space.\<close>

definition fmtStrings :: "string list \<Rightarrow> string" where
  "fmtStrings xs = ''['' @ Join xs '' '' @ '']''"

text \<open>\<^verbatim>\<open>errors.Wrapf(err, msg)\<close>: the message, a colon and the cause.\<close>

definition Wrapf :: "string \<Rightarrow> string \<Rightarrow> string" where
  "Wrapf err msg = msg @ '': '' @ err"

subsection \<open>Locator order and file names\<close>

text \<open>
  \<^verbatim>\<open>sortLocators\<close> sorts by the string form. \<^verbatim>\<open>sort.Slice\<close> is not stable: where
  two distinct locators have the same string form Go leaves their relative order open, and
  the model keeps the order of the input.
\<close>

definition sortLocators :: "locator list \<Rightarrow> locator list" where
  "sortLocators locs = sort_key String locs"

definition pluginFileName :: "locator \<Rightarrow> string" where
  "pluginFileName l = Group l @ ''-'' @ Product l @ ''-'' @ Version l"

subsection \<open>Compatibility of the resolved plugins\<close>

definition differentVersion :: string where
  "differentVersion = ''different version of the same plugin''"

definition conflictingTasks :: "string list \<Rightarrow> string" where
  "conflictingTasks commonTasks = ''provides conflicting tasks: '' @ fmtStrings commonTasks"

text \<open>
  The names of the tasks of the current plugin, sorted, that the other plugin provides too
  (lines 233 to 251 of the source).
\<close>

definition commonTasks :: "pluginInfo \<Rightarrow> pluginInfo \<Rightarrow> string list" where
  "commonTasks currPluginInfo otherPluginInfo =
     (let currPluginTasks = sort (map Name (Tasks currPluginInfo ''''));
          otherPluginTasks = set (map Name (Tasks otherPluginInfo ''''))
      in filter (\<lambda>currPluginTask. currPluginTask \<in> otherPluginTasks) currPluginTasks)"

text \<open>
  The loop of \<^verbatim>\<open>verifySinglePluginCompatibility\<close> over the entries still to visit.
  \<^verbatim>\<open>plugins[plugin]\<close> is read only when the other plugin differs in group or product;
  for a locator that is no key of the map it is nil and the call of \<^verbatim>\<open>Tasks\<close> panics.
\<close>

fun singleLoop ::
  "locator \<Rightarrow> pluginInfo locmap \<Rightarrow> pluginInfo locmap \<Rightarrow> string locmap \<Rightarrow> string locmap option"
where
  "singleLoop plugin plugins [] errs = Some errs"
| "singleLoop plugin plugins ((otherPlugin, otherPluginInfo) # rest) errs =
     (if otherPlugin = plugin then singleLoop plugin plugins rest errs
      else if Group otherPlugin = Group plugin \<and> Product otherPlugin = Product plugin then
        singleLoop plugin plugins rest (AList.update otherPlugin differentVersion errs)
      else
        (case map_of plugins plugin of
           None \<Rightarrow> None
         | Some currPluginInfo \<Rightarrow>
             (let common = commonTasks currPluginInfo otherPluginInfo
              in if length common \<noteq> 0 then
                   singleLoop plugin plugins rest
                     (AList.update otherPlugin (conflictingTasks common) errs)
                 else singleLoop plugin plugins rest errs)))"

definition verifySinglePluginCompatibility ::
  "locator \<Rightarrow> pluginInfo locmap \<Rightarrow> string locmap option"
where
  "verifySinglePluginCompatibility plugin plugins = singleLoop plugin plugins plugins []"

text \<open>The first loop of \<^verbatim>\<open>verifyPluginCompatibility\<close>: the conflicts of each plugin.\<close>

fun conflictsLoop ::
  "pluginInfo locmap \<Rightarrow> pluginInfo locmap \<Rightarrow> string locmap locmap \<Rightarrow> string locmap locmap option"
where
  "conflictsLoop plugins [] conflicts = Some conflicts"
| "conflictsLoop plugins ((currPlugin, currInfo) # rest) conflicts =
     (case verifySinglePluginCompatibility currPlugin plugins of
        None \<Rightarrow> None
      | Some currConflicts \<Rightarrow>
          if length currConflicts = 0 then conflictsLoop plugins rest conflicts
          else conflictsLoop plugins rest (AList.update currPlugin currConflicts conflicts))"

text \<open>
  The inner loop of the report: one line, indented twice, for each conflict of a plugin.
  \<^verbatim>\<open>conflicts[k][innerK]\<close> of an absent key is a nil error, whose \<^verbatim>\<open>Error\<close> panics.
\<close>

fun innerLines :: "string locmap \<Rightarrow> locator list \<Rightarrow> string \<Rightarrow> string option" where
  "innerLines errs [] errString = Some errString"
| "innerLines errs (innerK # ks) errString =
     (case map_of errs innerK of
        None \<Rightarrow> None
      | Some e \<Rightarrow> innerLines errs ks (errString @ newline @ spaces (indentSpaces * 2) @ e))"

text \<open>
  The outer loop of the report. \<^verbatim>\<open>conflicts[k]\<close> of an absent key is a nil map, over
  which \<^verbatim>\<open>range\<close> does not iterate.
\<close>

fun outerLines :: "string locmap locmap \<Rightarrow> locator list \<Rightarrow> string \<Rightarrow> string option" where
  "outerLines conflicts [] errString = Some errString"
| "outerLines conflicts (k # ks) errString =
     (let errString1 = errString @ newline @ spaces indentSpaces @ String k @ '':'';
          inner = (case map_of conflicts k of None \<Rightarrow> [] | Some m \<Rightarrow> m);
          sortedInnerKeys = sortLocators (map fst inner)
      in case innerLines inner sortedInnerKeys errString1 of
           None \<Rightarrow> None
         | Some errString2 \<Rightarrow> outerLines conflicts ks errString2)"

text \<open>
  \<^verbatim>\<open>verifyPluginCompatibility\<close>: \<open>Some None\<close> is the nil error, \<open>Some (Some e)\<close> the
  error \<open>e\<close>.
\<close>

definition verifyPluginCompatibility :: "pluginInfo locmap \<Rightarrow> string option option" where
  "verifyPluginCompatibility plugins =
     (case conflictsLoop plugins plugins [] of
        None \<Rightarrow> None
      | Some conflicts \<Rightarrow>
          if length conflicts = 0 then Some None
          else
            (let sortedOuterKeys = sortLocators (map fst conflicts);
                 errString = digits (length conflicts) @ '' plugins had compatibility issues:''
             in map_option Some (outerLines conflicts sortedOuterKeys errString)))"

subsection \<open>The world outside the package\<close>

text \<open>
  The file system is a map from paths to contents. \<^verbatim>\<open>os.Stat\<close> reports a path as not
  existing exactly when the path is outside the domain of the map, and has no other error
  (the source treats any other error of \<^verbatim>\<open>os.Stat\<close> like an existing file);
  \<^verbatim>\<open>os.Open\<close> fails exactly on a path outside the domain. The trace records, in order,
  the work done on the file system and on plugins; it is what statements about work that is
  or is not performed refer to. The writer for progress lines, which the package only hands
  to \<^verbatim>\<open>resolvePluginTGZ\<close>, is left out.
\<close>

type_synonym files = "string \<rightharpoonup> string"

datatype event =
  Stat string
| Fetch string
| Unpack string
| Checksum string
| InfoProbe string

record world =
  files :: files
  trace :: "event list"

definition emit :: "event \<Rightarrow> world \<Rightarrow> world" where
  "emit e w = w\<lparr>trace := trace w @ [e]\<rparr>"

text \<open>
  The functions the package calls and whose code is not among the sources are parameters:
  \<^item> \<open>pathJoin\<close> is \<^verbatim>\<open>path.Join\<close>;
  \<^item> \<open>resolvePluginTGZ\<close> downloads the archive of a plugin to a destination path and
    returns its error, if any, and the file system it leaves;
  \<^item> \<open>createError\<close> and \<open>closeError\<close> are the errors of \<^verbatim>\<open>os.OpenFile\<close> (with
    create and truncate) and of \<^verbatim>\<open>Close\<close> on a path, if any;
  \<^item> \<open>copyPluginTGZContent\<close> maps the bytes of an archive to the bytes it writes to the
    plugin file and its error, if any;
  \<^item> \<open>sha256ChecksumFile\<close> and \<open>InfoFromPlugin\<close> read a path of the file system;
  \<^item> \<open>projectParamsFromConfig\<close>, \<open>homeSpecDir\<close> (the plugins and the downloads
    directory of the home directory, or the error of creating it) and \<open>currentOSArch\<close>
    are what \<^verbatim>\<open>LoadPluginsTasks\<close> starts from.
\<close>

record 'cfg sys =
  pathJoin :: "string \<Rightarrow> string \<Rightarrow> string"
  resolvePluginTGZ ::
    "pluginConfig \<Rightarrow> string list \<Rightarrow> osArch \<Rightarrow> string \<Rightarrow> files \<Rightarrow> string option \<times> files"
  createError :: "string \<Rightarrow> string option"
  closeError :: "string \<Rightarrow> string option"
  copyPluginTGZContent :: "string \<Rightarrow> string \<times> string option"
  sha256ChecksumFile :: "string \<Rightarrow> files \<Rightarrow> string + string"
  InfoFromPlugin :: "string \<Rightarrow> files \<Rightarrow> string + pluginInfo"
  projectParamsFromConfig :: "'cfg \<Rightarrow> string + projectParams"
  homeSpecDir :: "string + string \<times> string"
  currentOSArch :: osArch

definition pluginPath :: "'cfg sys \<Rightarrow> string \<Rightarrow> locator \<Rightarrow> string" where
  "pluginPath X pluginDir l = pathJoin X pluginDir (pluginFileName l)"

subsection \<open>Resolving the plugins\<close>

text \<open>
  The function literal of lines 112 to 132: the plugin file is created (or truncated) in
  place, the archive is opened and its content copied; the deferred \<^verbatim>\<open>Close\<close> runs on
  every path after the creation and its error replaces the result. Nothing removes the
  plugin file.
\<close>

definition extractPlugin :: "'cfg sys \<Rightarrow> string \<Rightarrow> string \<Rightarrow> files \<Rightarrow> string option \<times> files" where
  "extractPlugin X currPluginDstPath tgzDstPath fs =
     (case createError X currPluginDstPath of
        Some err \<Rightarrow> (Some (Wrapf err (''failed to create file '' @ currPluginDstPath)), fs)
      | None \<Rightarrow>
          (let fs1 = fs(currPluginDstPath \<mapsto> []);
               (rErr, fs2) =
                 (case fs1 tgzDstPath of
                    None \<Rightarrow>
                      (Some (Wrapf (''open '' @ tgzDstPath @ '': no such file or directory'')
                               (''failed to open '' @ tgzDstPath @ '' for reading'')), fs1)
                  | Some tgz \<Rightarrow>
                      (let (written, err) = copyPluginTGZContent X tgz
                       in (err, fs1(currPluginDstPath \<mapsto> written))))
           in case closeError X currPluginDstPath of
                Some err \<Rightarrow> (Some (Wrapf err (''failed to close file '' @ currPluginDstPath)), fs2)
              | None \<Rightarrow> (rErr, fs2)))"

text \<open>Lines 106 to 135: the branch taken when the plugin file does not exist.\<close>

definition installPlugin ::
  "'cfg sys \<Rightarrow> string \<Rightarrow> osArch \<Rightarrow> projectParams \<Rightarrow> pluginConfig \<Rightarrow> string \<Rightarrow> world
     \<Rightarrow> string option \<times> world"
where
  "installPlugin X downloadsDir osArch param currPlugin currPluginDstPath w =
     (let currPluginLocator = Locator (LocatorWithChecksums currPlugin);
          tgzDstPath = pathJoin X downloadsDir (pluginFileName currPluginLocator @ ''.tgz'');
          (fetchErr, fs1) =
            resolvePluginTGZ X currPlugin (DefaultResolvers param) osArch tgzDstPath (files w);
          w1 = emit (Fetch tgzDstPath) (w\<lparr>files := fs1\<rparr>)
      in case fetchErr of
           Some err \<Rightarrow> (Some err, w1)
         | None \<Rightarrow>
             (let (unpackErr, fs2) = extractPlugin X currPluginDstPath tgzDstPath (files w1);
                  w2 = emit (Unpack currPluginDstPath) (w1\<lparr>files := fs2\<rparr>)
              in case unpackErr of
                   Some err \<Rightarrow>
                     (Some (Wrapf err ''failed to extract plugin from archive into destination''),
                      w2)
                 | None \<Rightarrow> (None, w2)))"

text \<open>\<^verbatim>\<open>%+v\<close> of a locator.\<close>

definition fmtLocator :: "locator \<Rightarrow> string" where
  "fmtLocator l =
     ''{Group:'' @ Group l @ '' Product:'' @ Product l @ '' Version:'' @ Version l @ ''}''"

text \<open>Lines 138 to 148: the checksum of the plugin file, when one is configured.\<close>

definition verifyChecksum ::
  "'cfg sys \<Rightarrow> osArch \<Rightarrow> pluginConfig \<Rightarrow> string \<Rightarrow> world \<Rightarrow> string option \<times> world"
where
  "verifyChecksum X osArch currPlugin currPluginDstPath w =
     (case Checksums (LocatorWithChecksums currPlugin) osArch of
        None \<Rightarrow> (None, w)
      | Some wantChecksum \<Rightarrow>
          (let w1 = emit (Checksum currPluginDstPath) w
           in case sha256ChecksumFile X currPluginDstPath (files w) of
                Inl err \<Rightarrow> (Some (Wrapf err ''failed to compute checksum for plugin''), w1)
              | Inr gotChecksum \<Rightarrow>
                  if gotChecksum \<noteq> wantChecksum then
                    (Some (''failed to verify checksum for '' @ currPluginDstPath @ '': want ''
                             @ wantChecksum @ '', got '' @ gotChecksum), w1)
                  else (None, w1)))"

text \<open>
  The body of the loop of \<^verbatim>\<open>resolvePlugins\<close> (lines 103 to 155) for one plugin: the
  error recorded for the plugin, or its information.
\<close>

definition resolveOne ::
  "'cfg sys \<Rightarrow> string \<Rightarrow> string \<Rightarrow> osArch \<Rightarrow> projectParams \<Rightarrow> pluginConfig \<Rightarrow> world
     \<Rightarrow> (string + pluginInfo) \<times> world"
where
  "resolveOne X pluginsDir downloadsDir osArch param currPlugin w =
     (let currPluginLocator = Locator (LocatorWithChecksums currPlugin);
          currPluginDstPath = pathJoin X pluginsDir (pluginFileName currPluginLocator);
          w0 = emit (Stat currPluginDstPath) w;
          (installErr, w1) =
            (if files w0 currPluginDstPath = None then
               installPlugin X downloadsDir osArch param currPlugin currPluginDstPath w0
             else (None, w0))
      in case installErr of
           Some err \<Rightarrow> (Inl err, w1)
         | None \<Rightarrow>
             (let (checksumErr, w2) = verifyChecksum X osArch currPlugin currPluginDstPath w1
              in case checksumErr of
                   Some err \<Rightarrow> (Inl err, w2)
                 | None \<Rightarrow>
                     (let w3 = emit (InfoProbe (pathJoin X pluginsDir (pluginFileName currPluginLocator))) w2
                      in case InfoFromPlugin X
                                (pathJoin X pluginsDir (pluginFileName currPluginLocator)) (files w2) of
                           Inl err \<Rightarrow>
                             (Inl (Wrapf err (''failed to get plugin info for plugin ''
                                                @ fmtLocator currPluginLocator)), w3)
                         | Inr info \<Rightarrow> (Inr info, w3))))"

text \<open>The loop of lines 102 to 156 over the declared plugins still to resolve.\<close>

fun resolveLoop ::
  "'cfg sys \<Rightarrow> string \<Rightarrow> string \<Rightarrow> osArch \<Rightarrow> projectParams \<Rightarrow> pluginConfig list
     \<Rightarrow> pluginInfo locmap \<Rightarrow> string locmap \<Rightarrow> world
     \<Rightarrow> pluginInfo locmap \<times> string locmap \<times> world"
where
  "resolveLoop X pluginsDir downloadsDir osArch param [] plugins pluginErrors w =
     (plugins, pluginErrors, w)"
| "resolveLoop X pluginsDir downloadsDir osArch param (currPlugin # rest) plugins pluginErrors w =
     (let currPluginLocator = Locator (LocatorWithChecksums currPlugin)
      in case resolveOne X pluginsDir downloadsDir osArch param currPlugin w of
           (Inl err, w') \<Rightarrow>
             resolveLoop X pluginsDir downloadsDir osArch param rest
               plugins (AList.update currPluginLocator err pluginErrors) w'
         | (Inr info, w') \<Rightarrow>
             resolveLoop X pluginsDir downloadsDir osArch param rest
               (AList.update currPluginLocator info plugins) pluginErrors w')"

text \<open>
  Lines 174 to 176: the messages of the errors in the order of the sorted keys.
  \<^verbatim>\<open>pluginErrors[k]\<close> of an absent key is a nil error, whose \<^verbatim>\<open>Error\<close> panics.
\<close>

fun errorParts :: "string locmap \<Rightarrow> locator list \<Rightarrow> string list \<Rightarrow> string list option" where
  "errorParts pluginErrors [] errStringsParts = Some errStringsParts"
| "errorParts pluginErrors (k # ks) errStringsParts =
     (case map_of pluginErrors k of
        None \<Rightarrow> None
      | Some err \<Rightarrow> errorParts pluginErrors ks (errStringsParts @ [err]))"

text \<open>Lines 158 to 177: the result of \<^verbatim>\<open>resolvePlugins\<close> from the two maps.\<close>

definition summarize :: "pluginInfo locmap \<Rightarrow> string locmap \<Rightarrow> (string + pluginInfo locmap) option" where
  "summarize plugins pluginErrors =
     (if length pluginErrors = 0 then Some (Inr plugins)
      else
        (let sortedKeys = sortLocators (map fst pluginErrors);
             pluginOrPlugins = (if length pluginErrors = 1 then ''plugin'' else ''plugins'')
         in case errorParts pluginErrors sortedKeys
                   [''failed to resolve '' @ digits (length pluginErrors) @ '' ''
                      @ pluginOrPlugins @ '':''] of
              None \<Rightarrow> None
            | Some errStringsParts \<Rightarrow>
                Some (Inl (Join errStringsParts (newline @ spaces indentSpaces)))))"

definition resolvePlugins ::
  "'cfg sys \<Rightarrow> string \<Rightarrow> string \<Rightarrow> osArch \<Rightarrow> projectParams \<Rightarrow> world
     \<Rightarrow> ((string + pluginInfo locmap) \<times> world) option"
where
  "resolvePlugins X pluginsDir downloadsDir osArch param w =
     (case resolveLoop X pluginsDir downloadsDir osArch param (Plugins param) [] [] w of
        (plugins, pluginErrors, w') \<Rightarrow>
          map_option (\<lambda>r. (r, w')) (summarize plugins pluginErrors))"

subsection \<open>Loading the tasks\<close>

text \<open>
  Lines 74 to 78: the tasks of the plugins in the order of the sorted locators.
  \<^verbatim>\<open>plugins[locator]\<close> of an absent key is nil, and the call of \<^verbatim>\<open>Tasks\<close> panics.
\<close>

fun collectTasks ::
  "'cfg sys \<Rightarrow> string \<Rightarrow> pluginInfo locmap \<Rightarrow> locator list \<Rightarrow> task list \<Rightarrow> task list option"
where
  "collectTasks X pluginsDir plugins [] tasks = Some tasks"
| "collectTasks X pluginsDir plugins (l # ls) tasks =
     (let pluginExecPath = pluginPath X pluginsDir l
      in case map_of plugins l of
           None \<Rightarrow> None
         | Some info \<Rightarrow> collectTasks X pluginsDir plugins ls (tasks @ Tasks info pluginExecPath))"

text \<open>
  \<^verbatim>\<open>LoadPluginsTasks\<close>: \<open>Inl err\<close> is the result \<^verbatim>\<open>nil, err\<close>, \<open>Inr tasks\<close> the result
  \<^verbatim>\<open>tasks, nil\<close>.
\<close>

definition LoadPluginsTasks ::
  "'cfg sys \<Rightarrow> 'cfg \<Rightarrow> world \<Rightarrow> ((string + task list) \<times> world) option"
where
  "LoadPluginsTasks X cfg w =
     (case projectParamsFromConfig X cfg of
        Inl err \<Rightarrow> Some (Inl err, w)
      | Inr params \<Rightarrow>
          (case homeSpecDir X of
             Inl err \<Rightarrow>
               Some (Inl (Wrapf err (''failed to create g'' @ [CHR 0xC3, CHR 0xB6]
                                        @ ''del home directory'')), w)
           | Inr (pluginsDir, downloadsDir) \<Rightarrow>
               (case resolvePlugins X pluginsDir downloadsDir (currentOSArch X) params w of
                  None \<Rightarrow> None
                | Some (Inl err, w') \<Rightarrow> Some (Inl err, w')
                | Some (Inr plugins, w') \<Rightarrow>
                    (case verifyPluginCompatibility plugins of
                       None \<Rightarrow> None
                     | Some (Some err) \<Rightarrow> Some (Inl err, w')
                     | Some None \<Rightarrow>
                         (let sortedLocators = sortLocators (map fst plugins)
                          in map_option (\<lambda>tasks. (Inr tasks, w'))
                               (collectTasks X pluginsDir plugins sortedLocators []))))))"

subsection \<open>The report of the conflicts, as a formula\<close>

text \<open>
  The decision of one iteration of \<^verbatim>\<open>verifySinglePluginCompatibility\<close> (lines 225 to
  255): the conflict of the plugin with another one, if any.
\<close>

definition pairConflict :: "locator \<Rightarrow> pluginInfo \<Rightarrow> locator \<Rightarrow> pluginInfo \<Rightarrow> string option" where
  "pairConflict plugin currInfo other otherInfo =
     (if other = plugin then None
      else if Group other = Group plugin \<and> Product other = Product plugin then Some differentVersion
      else if commonTasks currInfo otherInfo \<noteq> [] then
        Some (conflictingTasks (commonTasks currInfo otherInfo))
      else None)"

text \<open>The conflicts of a plugin with the plugins of a list, in the order of the list.\<close>

definition conflictsOf :: "locator \<Rightarrow> pluginInfo \<Rightarrow> pluginInfo locmap \<Rightarrow> string locmap" where
  "conflictsOf plugin currInfo rest =
     List.map_filter (\<lambda>(q, qi). map_option (Pair q) (pairConflict plugin currInfo q qi)) rest"

text \<open>The plugins of a list that have conflicts, each with its conflicts.\<close>

definition allConflicts :: "pluginInfo locmap \<Rightarrow> pluginInfo locmap \<Rightarrow> string locmap locmap" where
  "allConflicts plugins rest =
     filter (\<lambda>kc. snd kc \<noteq> []) (map (\<lambda>(k, ki). (k, conflictsOf k ki plugins)) rest)"

text \<open>
  The report as the specification words it: a first line with the number of plugins that have
  conflicts, then, in the order of the locators, each such plugin on a line indented by four
  spaces, followed by its conflicts, in the order of the locators of the other plugins, each
  on a line indented by eight spaces.
\<close>

definition conflictLines :: "string locmap \<Rightarrow> string" where
  "conflictLines errs =
     concat (map (\<lambda>(q, m). newline @ spaces (indentSpaces * 2) @ m) (sort_key (\<lambda>e. String (fst e)) errs))"

definition pluginLines :: "string locmap locmap \<Rightarrow> string" where
  "pluginLines conflicts =
     concat (map (\<lambda>(k, errs). newline @ spaces indentSpaces @ String k @ '':'' @ conflictLines errs)
               (sort_key (\<lambda>e. String (fst e)) conflicts))"

definition report :: "string locmap locmap \<Rightarrow> string" where
  "report conflicts =
     digits (length conflicts) @ '' plugins had compatibility issues:'' @ pluginLines conflicts"

text \<open>The plugins that have conflicts, each with the lines of its conflicts.\<close>

definition rendered :: "string locmap locmap \<Rightarrow> string locmap" where
  "rendered conflicts = map (\<lambda>(k, errs). (k, conflictLines errs)) conflicts"

subsection \<open>The summary of the errors, as a formula\<close>

text \<open>The locator of a declared plugin (line 103).\<close>

definition locatorOf :: "pluginConfig \<Rightarrow> locator" where
  "locatorOf currPlugin = Locator (LocatorWithChecksums currPlugin)"

text \<open>
  The summary of the errors as the specification words it: a first line with the number of
  plugins, then the error of each plugin on a line of its own, indented by four spaces, in
  the order of the locators.
\<close>

definition errorLines :: "string locmap \<Rightarrow> string" where
  "errorLines pluginErrors =
     concat (map (\<lambda>(k, err). newline @ spaces indentSpaces @ err)
               (sort_key (\<lambda>e. String (fst e)) pluginErrors))"

definition summary :: "string locmap \<Rightarrow> string" where
  "summary pluginErrors =
     ''failed to resolve '' @ digits (length pluginErrors) @ '' ''
       @ (if length pluginErrors = 1 then ''plugin'' else ''plugins'') @ '':''
       @ errorLines pluginErrors"

text \<open>
  Equality of two strings up to the case of the letters \<^verbatim>\<open>A\<close> to \<^verbatim>\<open>Z\<close>: what a
  comparison of two digests that ignores case would decide.
\<close>

definition lowerChar :: "char \<Rightarrow> char" where
  "lowerChar c =
     (case map_of (zip ''ABCDEFGHIJKLMNOPQRSTUVWXYZ'' ''abcdefghijklmnopqrstuvwxyz'') c of
        None \<Rightarrow> c
      | Some l \<Rightarrow> l)"

definition EqualFold :: "string \<Rightarrow> string \<Rightarrow> bool" where
  "EqualFold a b = (map lowerChar a = map lowerChar b)"

text \<open>The message of line 145.\<close>

definition checksumMismatch :: "string \<Rightarrow> string \<Rightarrow> string \<Rightarrow> string" where
  "checksumMismatch currPluginDstPath wantChecksum gotChecksum =
     ''failed to verify checksum for '' @ currPluginDstPath @ '': want '' @ wantChecksum
       @ '', got '' @ gotChecksum"

text \<open>The path of the archive of a declared plugin in the downloads directory (line 106).\<close>

definition tgzPath :: "'cfg sys \<Rightarrow> string \<Rightarrow> pluginConfig \<Rightarrow> string" where
  "tgzPath X downloadsDir currPlugin =
     pathJoin X downloadsDir (pluginFileName (locatorOf currPlugin) @ ''.tgz'')"

text \<open>The path of the file of a declared plugin in the plugins directory (line 104).\<close>

definition dstPath :: "'cfg sys \<Rightarrow> string \<Rightarrow> pluginConfig \<Rightarrow> string" where
  "dstPath X pluginsDir currPlugin = pathJoin X pluginsDir (pluginFileName (locatorOf currPlugin))"

text \<open>The world that the loop of \<^verbatim>\<open>resolvePlugins\<close> leaves.\<close>

definition worldAfter ::
  "'cfg sys \<Rightarrow> string \<Rightarrow> string \<Rightarrow> osArch \<Rightarrow> projectParams \<Rightarrow> world \<Rightarrow> world"
where
  "worldAfter X pluginsDir downloadsDir osArch param w =
     snd (snd (resolveLoop X pluginsDir downloadsDir osArch param (Plugins param) [] [] w))"

text \<open>
  What lines 138 to 155 decide for a plugin from the file system: the error of the checksum
  or of the information of the plugin, or the information.
\<close>

definition probe :: "'cfg sys \<Rightarrow> string \<Rightarrow> osArch \<Rightarrow> pluginConfig \<Rightarrow> files \<Rightarrow> string + pluginInfo" where
  "probe X pluginsDir osArch currPlugin fs =
     (case fst (verifyChecksum X osArch currPlugin (dstPath X pluginsDir currPlugin)
                  \<lparr>files = fs, trace = []\<rparr>) of
        Some err \<Rightarrow> Inl err
      | None \<Rightarrow>
          (case InfoFromPlugin X (dstPath X pluginsDir currPlugin) fs of
             Inl err \<Rightarrow>
               Inl (Wrapf err (''failed to get plugin info for plugin ''
                                 @ fmtLocator (locatorOf currPlugin)))
           | Inr info \<Rightarrow> Inr info))"

text \<open>
  The work on a plugin whose file exists and passes: the existence check, the checksum when
  one is configured, and the information of the plugin.
\<close>

definition rerunEvents :: "'cfg sys \<Rightarrow> string \<Rightarrow> osArch \<Rightarrow> pluginConfig \<Rightarrow> event list" where
  "rerunEvents X pluginsDir osArch currPlugin =
     [Stat (dstPath X pluginsDir currPlugin)]
     @ (case Checksums (LocatorWithChecksums currPlugin) osArch of
          None \<Rightarrow> []
        | Some wantChecksum \<Rightarrow> [Checksum (dstPath X pluginsDir currPlugin)])
     @ [InfoProbe (dstPath X pluginsDir currPlugin)]"

subsection \<open>The arguments of a plugin task\<close>

text \<open>
  The launcher's global parameters: the project directory and whether debugging is active.
\<close>

record globalConfig =
  ProjectDir :: string
  Debug :: bool

text \<open>
  How a task is invoked: directly by the user, or by the verify task with its \<^verbatim>\<open>apply\<close>
  setting.
\<close>

datatype invocation = Direct | Verify bool

text \<open>
  Modelled from the spec: the code that binds a task to its arguments (the invoker of
  \<^verbatim>\<open>pluginapi\<close> and the verify task) is not among the sources. For each global flag
  the task declares, the flag and its value: the debug flag alone and only when debugging is
  active, the project directory, the path of \<^verbatim>\<open>godel.yml\<close> and the path of the
  configuration file of the plugin under the configuration directory of the project.
\<close>

definition globalFlagArgs :: "globalConfig \<Rightarrow> task \<Rightarrow> string list" where
  "globalFlagArgs global t =
     (case GlobalFlagOptions (Declared t) of
        None \<Rightarrow> []
      | Some opts \<Rightarrow>
          (if Debug global \<and> DebugFlag opts \<noteq> [] then [DebugFlag opts] else [])
          @ (if ProjectDirFlag opts \<noteq> [] then [ProjectDirFlag opts, ProjectDir global] else [])
          @ (if GodelConfigFlag opts \<noteq> [] then
               [GodelConfigFlag opts, ProjectDir global @ ''/godel/config/godel.yml'']
             else [])
          @ (if ConfigFlag opts \<noteq> [] then
               [ConfigFlag opts, ProjectDir global @ ''/godel/config/'' @ ConfigFile t]
             else []))"

text \<open>
  Modelled from the spec: the arguments of the subprocess of a task, which is not among the
  sources. The executable, the global flags, the command of the task, and then the arguments
  of the user; the verify mode passes no arguments of the user, and with \<^verbatim>\<open>apply=false\<close>
  appends the tokens the task declares for it.
\<close>

definition taskArgv :: "globalConfig \<Rightarrow> task \<Rightarrow> invocation \<Rightarrow> string list \<Rightarrow> string list" where
  "taskArgv global t mode userArgs =
     [ExecPath t] @ globalFlagArgs global t @ [Command (Declared t)]
     @ (case mode of
          Direct \<Rightarrow> userArgs
        | Verify applyChanges \<Rightarrow>
            if applyChanges then []
            else (case ApplyFalseArgs (Declared t) of None \<Rightarrow> [] | Some tokens \<Rightarrow> tokens))"

subsection \<open>A concrete configuration\<close>

text \<open>
  Concrete plugins and a concrete world outside the package, on which the statements below
  are evaluated: three plugins of the group \<^verbatim>\<open>com.palantir\<close>, two of them versions of
  the same product.
\<close>

definition echoTask :: "string \<Rightarrow> taskInfo" where
  "echoTask n =
     \<lparr>TaskName = n, TaskDescription = ''Echoes input'', Command = ''echo'',
      GlobalFlagOptions =
        Some \<lparr>DebugFlag = ''--debug'', ProjectDirFlag = ''--project-dir'',
              GodelConfigFlag = ''--godel-config'', ConfigFlag = ''--config''\<rparr>,
      ApplyFalseArgs = Some [''--verify'']\<rparr>"

definition echoInfo :: "string list \<Rightarrow> pluginInfo" where
  "echoInfo names = \<lparr>ConfigFileName = ''echo.yml'', TaskInfos = map echoTask names\<rparr>"

definition locA :: locator where
  "locA = \<lparr>Group = ''com.palantir'', Product = ''a'', Version = ''1.0.0''\<rparr>"

definition locB :: locator where
  "locB = \<lparr>Group = ''com.palantir'', Product = ''b'', Version = ''1.0.0''\<rparr>"

definition locB2 :: locator where
  "locB2 = \<lparr>Group = ''com.palantir'', Product = ''b'', Version = ''2.0.0''\<rparr>"

definition lintPlugins :: "pluginInfo locmap" where
  "lintPlugins = [(locB, echoInfo [''lint'', ''fmt'']), (locA, echoInfo [''test'', ''lint''])]"

definition versionPlugins :: "pluginInfo locmap" where
  "versionPlugins = [(locB2, echoInfo [''lint'']), (locB, echoInfo [''lint''])]"

text \<open>
  The world outside: paths are joined with a slash; the archive that is downloaded for a
  plugin holds the text of the plugin's resolver, and no archive can be downloaded for a
  plugin without one; an archive whose text starts with an exclamation mark cannot be
  unpacked; the digest of a file is its content after \<^verbatim>\<open>c0ffee\<close>; a plugin file
  provides one task, named by its content, and an empty file cannot be run. The
  configuration is the project parameters themselves.
\<close>

definition demoSys :: "projectParams sys" where
  "demoSys =
     \<lparr>pathJoin = (\<lambda>dir name. dir @ ''/'' @ name),
      resolvePluginTGZ =
        (\<lambda>currPlugin defaultResolvers osArch dst fs.
           if Resolver currPlugin = [] then (Some ''no resolver could retrieve the archive'', fs)
           else (None, fs(dst \<mapsto> Resolver currPlugin))),
      createError = (\<lambda>p. None),
      closeError = (\<lambda>p. None),
      copyPluginTGZContent =
        (\<lambda>tgz. if take 1 tgz = ''!'' then (''#'', Some ''archive is not readable'')
               else (tgz, None)),
      sha256ChecksumFile =
        (\<lambda>p fs. case fs p of None \<Rightarrow> Inl (''open '' @ p @ '': no such file or directory'')
                  | Some content \<Rightarrow> Inr (''c0ffee'' @ content)),
      InfoFromPlugin =
        (\<lambda>p fs. case fs p of None \<Rightarrow> Inl (''fork/exec '' @ p @ '': no such file or directory'')
                  | Some content \<Rightarrow>
                      if content = [] then Inl (''fork/exec '' @ p @ '': exec format error'')
                      else Inr (echoInfo [content])),
      projectParamsFromConfig = (\<lambda>cfg. Inr cfg),
      homeSpecDir = Inr (''/h/plugins'', ''/h/downloads''),
      currentOSArch = (''linux'', ''amd64'')\<rparr>"

definition pluginCfg :: "locator \<Rightarrow> string \<Rightarrow> (osArch \<rightharpoonup> string) \<Rightarrow> pluginConfig" where
  "pluginCfg l resolver checksums =
     \<lparr>LocatorWithChecksums = \<lparr>Locator = l, Checksums = checksums\<rparr>, Resolver = resolver\<rparr>"

definition emptyWorld :: world where
  "emptyWorld = \<lparr>files = Map.empty, trace = []\<rparr>"

definition okParams :: projectParams where
  "okParams =
     \<lparr>DefaultResolvers = [],
      Plugins = [pluginCfg locB ''lint'' Map.empty, pluginCfg locA ''test'' Map.empty]\<rparr>"

definition failParams :: projectParams where
  "failParams =
     \<lparr>DefaultResolvers = [],
      Plugins = [pluginCfg locB [] Map.empty, pluginCfg locB2 ''lint'' Map.empty,
                 pluginCfg locA ''!'' Map.empty]\<rparr>"

definition conflictParams :: projectParams where
  "conflictParams =
     \<lparr>DefaultResolvers = [],
      Plugins = [pluginCfg locB ''lint'' Map.empty, pluginCfg locA ''lint'' Map.empty]\<rparr>"

definition midFailParams :: projectParams where
  "midFailParams =
     \<lparr>DefaultResolvers = [],
      Plugins = [pluginCfg locB2 ''lint'' Map.empty, pluginCfg locB [] Map.empty,
                 pluginCfg locA ''test'' Map.empty]\<rparr>"

definition conflictPlugins :: "pluginInfo locmap" where
  "conflictPlugins = [(locB, echoInfo [''lint'']), (locA, echoInfo [''lint''])]"

definition upperChecksum :: "osArch \<rightharpoonup> string" where
  "upperChecksum = [(''linux'', ''amd64'') \<mapsto> ''C0FFEETEST'']"

definition lowerChecksum :: "osArch \<rightharpoonup> string" where
  "lowerChecksum = [(''linux'', ''amd64'') \<mapsto> ''c0ffeetest'']"

definition installedWorld :: world where
  "installedWorld = \<lparr>files = [''/h/plugins/com.palantir-a-1.0.0'' \<mapsto> ''test''], trace = []\<rparr>"

definition checksumParams :: projectParams where
  "checksumParams =
     \<lparr>DefaultResolvers = [],
      Plugins = [pluginCfg locB ''lint'' Map.empty, pluginCfg locA ''test'' lowerChecksum]\<rparr>"

definition badArchiveParams :: projectParams where
  "badArchiveParams = \<lparr>DefaultResolvers = [], Plugins = [pluginCfg locA ''!'' Map.empty]\<rparr>"

definition echoBound :: task where
  "echoBound = hd (Tasks (echoInfo [''echo-task'']) ''/h/plugins/com.palantir-tester-1.0.0'')"

definition projectGlobal :: globalConfig where
  "projectGlobal = \<lparr>ProjectDir = ''/project'', Debug = False\<rparr>"

section \<open>Properties\<close>

subsection \<open>The compatibility check computes the report\<close>

lemma conflictsOf_Nil [simp]: "conflictsOf p ci [] = []"
  by (simp add: conflictsOf_def)

lemma update_fresh: "k \<notin> fst ` set al \<Longrightarrow> AList.update k v al = al @ [(k, v)]"
  by (induction al) auto

lemma conflictsOf_Cons:
  "conflictsOf p ci ((q, qi) # rest) =
     (case pairConflict p ci q qi of None \<Rightarrow> conflictsOf p ci rest
      | Some m \<Rightarrow> (q, m) # conflictsOf p ci rest)"
  by (simp add: conflictsOf_def split: option.splits)

lemma set_conflictsOf:
  "set (conflictsOf p ci rest) = {(q, m). \<exists>qi. (q, qi) \<in> set rest \<and> pairConflict p ci q qi = Some m}"
  by (induction rest) (auto simp: conflictsOf_Cons split: option.splits)

lemma conflictsOf_keys: "fst ` set (conflictsOf p ci rest) \<subseteq> fst ` set rest"
  by (force simp: set_conflictsOf)

lemma singleLoop_char:
  assumes "map_of plugins plugin = Some ci"
      and "distinct (map fst rest)"
      and "fst ` set errs \<inter> fst ` set rest = {}"
  shows "singleLoop plugin plugins rest errs = Some (errs @ conflictsOf plugin ci rest)"
  using assms(2,3)
proof (induction rest arbitrary: errs)
  case Nil
  then show ?case by simp
next
  case (Cons a rest)
  obtain q qi where a: "a = (q, qi)" by (cases a)
  from Cons.prems have d: "distinct (map fst rest)" and qn: "q \<notin> fst ` set rest"
    and qe: "q \<notin> fst ` set errs" and dis: "fst ` set errs \<inter> fst ` set rest = {}"
    by (auto simp: a)
  have upd: "\<And>m. singleLoop plugin plugins rest (AList.update q m errs)
                = Some ((errs @ [(q, m)]) @ conflictsOf plugin ci rest)"
  proof -
    fix m
    have "fst ` set (AList.update q m errs) \<inter> fst ` set rest = {}"
      using dis qn by (auto simp: AList.dom_update)
    from Cons.IH[OF d this] show "singleLoop plugin plugins rest (AList.update q m errs)
                = Some ((errs @ [(q, m)]) @ conflictsOf plugin ci rest)"
      by (simp add: update_fresh[OF qe])
  qed
  show ?case
    using Cons.IH[OF d dis] upd assms(1)
    by (simp add: a conflictsOf_Cons pairConflict_def Let_def)
qed

lemma verifySingle_char:
  assumes "map_of plugins plugin = Some ci" and "distinct (map fst plugins)"
  shows "verifySinglePluginCompatibility plugin plugins = Some (conflictsOf plugin ci plugins)"
  using singleLoop_char[OF assms(1) assms(2), of "[]"]
  by (simp add: verifySinglePluginCompatibility_def)

lemma map_of_conflictsOf:
  assumes "distinct (map fst rest)" and "(q, qi) \<in> set rest"
  shows "map_of (conflictsOf p ci rest) q = pairConflict p ci q qi"
  using assms
proof (induction rest)
  case Nil then show ?case by simp
next
  case (Cons a rest)
  obtain r ri where a: "a = (r, ri)" by (cases a)
  show ?case
  proof (cases "r = q")
    case True
    with Cons.prems a have "ri = qi" by (auto simp: rev_image_eqI)
    moreover have "q \<notin> fst ` set (conflictsOf p ci rest)"
      using conflictsOf_keys[of p ci rest] Cons.prems a True by auto
    ultimately show ?thesis using True a
      by (auto simp: conflictsOf_Cons map_of_eq_None_iff split: option.splits)
  next
    case False
    with Cons a show ?thesis
      by (auto simp: conflictsOf_Cons split: option.splits)
  qed
qed

lemma allConflicts_Cons:
  "allConflicts plugins ((k, ki) # rest) =
     (if conflictsOf k ki plugins = [] then allConflicts plugins rest
      else (k, conflictsOf k ki plugins) # allConflicts plugins rest)"
  by (simp add: allConflicts_def)

lemma allConflicts_keys: "fst ` set (allConflicts plugins rest) \<subseteq> fst ` set rest"
  by (force simp: allConflicts_def)

lemma conflictsLoop_char:
  assumes "distinct (map fst plugins)"
      and "set rest \<subseteq> set plugins"
      and "distinct (map fst rest)"
      and "fst ` set conflicts \<inter> fst ` set rest = {}"
  shows "conflictsLoop plugins rest conflicts = Some (conflicts @ allConflicts plugins rest)"
  using assms(2-4)
proof (induction rest arbitrary: conflicts)
  case Nil
  then show ?case by (simp add: allConflicts_def)
next
  case (Cons a rest)
  obtain k ki where a: "a = (k, ki)" by (cases a)
  from Cons.prems a have mem: "(k, ki) \<in> set plugins" and sub: "set rest \<subseteq> set plugins"
    and d: "distinct (map fst rest)" and kn: "k \<notin> fst ` set rest"
    and kc: "k \<notin> fst ` set conflicts" and dis: "fst ` set conflicts \<inter> fst ` set rest = {}"
    by auto
  have look: "map_of plugins k = Some ki"
    using assms(1) mem by simp
  have single: "verifySinglePluginCompatibility k plugins = Some (conflictsOf k ki plugins)"
    by (rule verifySingle_char[OF look assms(1)])
  show ?case
  proof (cases "conflictsOf k ki plugins = []")
    case True
    with Cons.IH[OF sub d dis] single show ?thesis
      by (simp add: a allConflicts_Cons)
  next
    case False
    have "fst ` set (AList.update k (conflictsOf k ki plugins) conflicts) \<inter> fst ` set rest = {}"
      using dis kn by (auto simp: AList.dom_update)
    from Cons.IH[OF sub d this] single False show ?thesis
      by (simp add: a allConflicts_Cons update_fresh[OF kc])
  qed
qed

lemma insort_key_map:
  "insort_key f (g x) (map g xs) = map g (insort_key (\<lambda>x. f (g x)) x xs)"
  by (induction xs) auto

lemma sort_key_map: "sort_key f (map g xs) = map g (sort_key (\<lambda>x. f (g x)) xs)"
  by (induction xs) (auto simp: insort_key_map)

lemma innerLines_gen:
  assumes "distinct (map fst errs)" and "set ys \<subseteq> set errs"
  shows "innerLines errs (map fst ys) s =
           Some (s @ concat (map (\<lambda>(q, m). newline @ spaces (indentSpaces * 2) @ m) ys))"
  using assms(2)
proof (induction ys arbitrary: s)
  case Nil
  then show ?case by simp
next
  case (Cons y ys)
  obtain q m where y: "y = (q, m)" by (cases y)
  with Cons.prems have "(q, m) \<in> set errs" and sub: "set ys \<subseteq> set errs" by auto
  then have "map_of errs q = Some m" using assms(1) by simp
  with Cons.IH[OF sub] show ?case by (simp add: y)
qed

lemma innerLines_char:
  assumes "distinct (map fst errs)"
  shows "innerLines errs (sortLocators (map fst errs)) s = Some (s @ conflictLines errs)"
proof -
  have "set (sort_key (\<lambda>e. String (fst e)) errs) \<subseteq> set errs" by simp
  from innerLines_gen[OF assms this] show ?thesis
    by (simp add: sortLocators_def sort_key_map conflictLines_def)
qed

lemma outerLines_gen:
  assumes "distinct (map fst conflicts)" and "set ys \<subseteq> set conflicts"
      and "\<forall>(k, errs) \<in> set conflicts. distinct (map fst errs)"
  shows "outerLines conflicts (map fst ys) s =
           Some (s @ concat (map (\<lambda>(k, errs). newline @ spaces indentSpaces @ String k @ '':''
                                      @ conflictLines errs) ys))"
  using assms(2)
proof (induction ys arbitrary: s)
  case Nil
  then show ?case by simp
next
  case (Cons y ys)
  obtain k errs where y: "y = (k, errs)" by (cases y)
  with Cons.prems have mem: "(k, errs) \<in> set conflicts" and sub: "set ys \<subseteq> set conflicts" by auto
  then have look: "map_of conflicts k = Some errs" using assms(1) by simp
  from mem assms(3) have "distinct (map fst errs)" by auto
  from innerLines_char[OF this] look Cons.IH[OF sub] show ?case
    by (simp add: y Let_def)
qed

lemma outerLines_char:
  assumes "distinct (map fst conflicts)"
      and "\<forall>(k, errs) \<in> set conflicts. distinct (map fst errs)"
  shows "outerLines conflicts (sortLocators (map fst conflicts)) s = Some (s @ pluginLines conflicts)"
proof -
  have "set (sort_key (\<lambda>e. String (fst e)) conflicts) \<subseteq> set conflicts" by simp
  from outerLines_gen[OF assms(1) this assms(2)] show ?thesis
    by (simp add: sortLocators_def sort_key_map pluginLines_def)
qed

lemma distinct_conflictsOf:
  "distinct (map fst rest) \<Longrightarrow> distinct (map fst (conflictsOf p ci rest))"
proof (induction rest)
  case Nil then show ?case by simp
next
  case (Cons a rest)
  obtain q qi where a: "a = (q, qi)" by (cases a)
  with Cons conflictsOf_keys[of p ci rest] show ?case
    by (auto simp: conflictsOf_Cons split: option.splits)
qed

lemma distinct_allConflicts:
  "distinct (map fst rest) \<Longrightarrow> distinct (map fst (allConflicts plugins rest))"
proof (induction rest)
  case Nil then show ?case by (simp add: allConflicts_def)
next
  case (Cons a rest)
  obtain q qi where a: "a = (q, qi)" by (cases a)
  with Cons allConflicts_keys[of plugins rest] show ?case
    by (auto simp: allConflicts_Cons)
qed

lemma verifyPluginCompatibility_char:
  assumes "distinct (map fst plugins)"
  shows "verifyPluginCompatibility plugins =
           (if allConflicts plugins plugins = [] then Some None
            else Some (Some (report (allConflicts plugins plugins))))"
proof -
  have loop: "conflictsLoop plugins plugins [] = Some (allConflicts plugins plugins)"
    using conflictsLoop_char[OF assms _ assms, of "[]"] by simp
  have d1: "distinct (map fst (allConflicts plugins plugins))"
    by (rule distinct_allConflicts[OF assms])
  have d2: "\<forall>(k, errs) \<in> set (allConflicts plugins plugins). distinct (map fst errs)"
    using distinct_conflictsOf[OF assms] by (auto simp: allConflicts_def)
  show ?thesis
    using loop outerLines_char[OF d1 d2] by (simp add: verifyPluginCompatibility_def report_def)
qed

lemma set_commonTasks:
  "set (commonTasks pi qi) = set (map TaskName (TaskInfos pi)) \<inter> set (map TaskName (TaskInfos qi))"
  by (auto simp: commonTasks_def Tasks_def Let_def)

lemma sorted_commonTasks: "sorted (commonTasks pi qi)"
  using sorted_filter[of "\<lambda>x. x" "sort (map Name (Tasks pi []))"]
  by (simp add: commonTasks_def Let_def)

lemma differentVersion_not_tasks: "differentVersion \<noteq> conflictingTasks ts"
  by (simp add: differentVersion_def conflictingTasks_def)

lemma filter_key_distinct:
  assumes "distinct (map fst al)" and "map_of al k = Some v"
  shows "filter (\<lambda>e. fst e = k) al = [(k, v)]"
  using assms
proof (induction al)
  case Nil then show ?case by simp
next
  case (Cons a al)
  obtain r rv where a: "a = (r, rv)" by (cases a)
  show ?case
  proof (cases "r = k")
    case True
    with Cons.prems a have "rv = v" and "k \<notin> fst ` set al" by auto
    then have "filter (\<lambda>e. fst e = k) al = []"
      by (auto simp: filter_empty_conv)
    with True a \<open>rv = v\<close> show ?thesis by simp
  next
    case False
    with Cons a show ?thesis by auto
  qed
qed

subsection \<open>The report does not depend on the order of iteration\<close>

lemma sorted_key_unique:
  assumes "sorted (map K xs)" and "sorted (map K ys)"
      and "distinct (map K xs)" and "distinct (map K ys)" and "set xs = set ys"
  shows "xs = ys"
proof -
  have "set (map K xs) = set (map K ys)" using assms(5) by simp
  with assms(1-4) have eq: "map K xs = map K ys"
    by (intro sorted_distinct_set_unique)
  from assms(3,5) have "inj_on K (set xs \<union> set ys)" by (simp add: distinct_map)
  with eq show ?thesis by (rule map_inj_on)
qed

lemma sort_key_set_unique:
  assumes "distinct (map K xs)" and "distinct (map K ys)" and "set xs = set ys"
  shows "sort_key K xs = sort_key K ys"
proof (rule sorted_key_unique[where K = K])
  show "distinct (map K (sort_key K xs))" using assms(1) by (simp add: distinct_map)
  show "distinct (map K (sort_key K ys))" using assms(2) by (simp add: distinct_map)
qed (simp_all add: assms(3))

lemma distinct_String_keys:
  assumes "distinct (map fst al)" and "inj_on String (fst ` set al)"
  shows "distinct (map (\<lambda>e. String (fst e)) al)"
proof -
  have "distinct (map (String \<circ> fst) al)"
    using assms by (simp add: distinct_map comp_inj_on)
  then show ?thesis by (simp add: comp_def)
qed

lemma conflictLines_perm:
  assumes "distinct (map fst plugins)" and "distinct (map fst plugins')"
      and "set plugins' = set plugins" and "inj_on String (fst ` set plugins)"
  shows "conflictLines (conflictsOf k ki plugins') = conflictLines (conflictsOf k ki plugins)"
proof -
  have s: "set (conflictsOf k ki plugins') = set (conflictsOf k ki plugins)"
    by (simp add: set_conflictsOf assms(3))
  have i: "inj_on String (fst ` set (conflictsOf k ki plugins))"
    using conflictsOf_keys[of k ki plugins] assms(4) by (rule inj_on_subset[rotated])
  have d: "distinct (map (\<lambda>e. String (fst e)) (conflictsOf k ki plugins))"
    by (rule distinct_String_keys[OF distinct_conflictsOf[OF assms(1)] i])
  have d': "distinct (map (\<lambda>e. String (fst e)) (conflictsOf k ki plugins'))"
    using distinct_String_keys[OF distinct_conflictsOf[OF assms(2)]] i s by simp
  from sort_key_set_unique[OF d' d s] show ?thesis by (simp add: conflictLines_def)
qed

lemma pluginLines_rendered:
  "pluginLines conflicts =
     concat (map (\<lambda>(k, ls). newline @ spaces indentSpaces @ String k @ '':'' @ ls)
               (sort_key (\<lambda>e. String (fst e)) (rendered conflicts)))"
proof -
  have "sort_key (\<lambda>e. String (fst e)) (rendered conflicts)
          = map (\<lambda>(k, errs). (k, conflictLines errs)) (sort_key (\<lambda>e. String (fst e)) conflicts)"
    unfolding rendered_def
    by (simp add: sort_key_map case_prod_unfold)
  then show ?thesis
    by (simp add: pluginLines_def comp_def case_prod_unfold)
qed

lemma set_rendered_allConflicts:
  "set (rendered (allConflicts plugins plugins)) =
     {(k, conflictLines (conflictsOf k ki plugins)) | k ki.
        (k, ki) \<in> set plugins \<and> set (conflictsOf k ki plugins) \<noteq> {}}"
  by (force simp: rendered_def allConflicts_def)

lemma rendered_perm:
  assumes "distinct (map fst plugins)" and "distinct (map fst plugins')"
      and "set plugins' = set plugins" and "inj_on String (fst ` set plugins)"
  shows "sort_key (\<lambda>e. String (fst e)) (rendered (allConflicts plugins' plugins'))
           = sort_key (\<lambda>e. String (fst e)) (rendered (allConflicts plugins plugins))"
    and "length (allConflicts plugins' plugins') = length (allConflicts plugins plugins)"
proof -
  let ?R = "rendered (allConflicts plugins plugins)"
  let ?R' = "rendered (allConflicts plugins' plugins')"
  have s: "set ?R' = set ?R"
    unfolding set_rendered_allConflicts
    using conflictLines_perm[OF assms] by (simp add: set_conflictsOf assms(3))
  have k: "map fst ?R = map fst (allConflicts plugins plugins)"
    and k': "map fst ?R' = map fst (allConflicts plugins' plugins')"
    by (simp_all add: rendered_def comp_def case_prod_unfold)
  have dk: "distinct (map fst ?R)" and dk': "distinct (map fst ?R')"
    using distinct_allConflicts[OF assms(1)] distinct_allConflicts[OF assms(2)] k k' by simp_all
  have "fst ` set ?R \<subseteq> fst ` set plugins"
    using allConflicts_keys[of plugins plugins] k by (metis set_map)
  then have i: "inj_on String (fst ` set ?R)"
    using assms(4) by (rule inj_on_subset[rotated])
  have d: "distinct (map (\<lambda>e. String (fst e)) ?R)"
    by (rule distinct_String_keys[OF dk i])
  have d': "distinct (map (\<lambda>e. String (fst e)) ?R')"
    using distinct_String_keys[OF dk'] i s by simp
  show "sort_key (\<lambda>e. String (fst e)) ?R' = sort_key (\<lambda>e. String (fst e)) ?R"
    by (rule sort_key_set_unique[OF d' d s])
  have "distinct ?R" and "distinct ?R'"
    using dk dk' by (simp_all add: distinct_map)
  then have "length ?R' = length ?R"
    using s by (metis distinct_card)
  then show "length (allConflicts plugins' plugins') = length (allConflicts plugins plugins)"
    by (simp add: rendered_def)
qed

lemma verifyPluginCompatibility_perm:
  assumes "distinct (map fst plugins)" and "distinct (map fst plugins')"
      and "set plugins' = set plugins" and "inj_on String (fst ` set plugins)"
  shows "verifyPluginCompatibility plugins' = verifyPluginCompatibility plugins"
proof -
  note r = rendered_perm[OF assms]
  have "report (allConflicts plugins' plugins') = report (allConflicts plugins plugins)"
    by (simp add: report_def pluginLines_rendered r)
  moreover have "allConflicts plugins' plugins' = [] \<longleftrightarrow> allConflicts plugins plugins = []"
    using r(2) by (metis length_0_conv)
  ultimately show ?thesis
    by (simp add: verifyPluginCompatibility_char[OF assms(1)]
        verifyPluginCompatibility_char[OF assms(2)])
qed

subsection \<open>The resolver computes the summary\<close>

lemma Join_Cons: "Join (a # rest) sep = a @ concat (map (\<lambda>e. sep @ e) rest)"
  by (induction rest arbitrary: a) auto

lemma errorParts_gen:
  assumes "distinct (map fst pluginErrors)" and "set ys \<subseteq> set pluginErrors"
  shows "errorParts pluginErrors (map fst ys) parts = Some (parts @ map snd ys)"
  using assms(2)
proof (induction ys arbitrary: parts)
  case Nil
  then show ?case by simp
next
  case (Cons y ys)
  obtain k err where y: "y = (k, err)" by (cases y)
  with Cons.prems have "(k, err) \<in> set pluginErrors" and sub: "set ys \<subseteq> set pluginErrors"
    by auto
  then have "map_of pluginErrors k = Some err" using assms(1) by simp
  with Cons.IH[OF sub] show ?case by (simp add: y)
qed

lemma errorParts_char:
  assumes "distinct (map fst pluginErrors)"
  shows "errorParts pluginErrors (sortLocators (map fst pluginErrors)) parts =
           Some (parts @ map snd (sort_key (\<lambda>e. String (fst e)) pluginErrors))"
proof -
  have "set (sort_key (\<lambda>e. String (fst e)) pluginErrors) \<subseteq> set pluginErrors" by simp
  from errorParts_gen[OF assms this] show ?thesis
    by (simp add: sortLocators_def sort_key_map)
qed

lemma summarize_char:
  assumes "distinct (map fst pluginErrors)"
  shows "summarize plugins pluginErrors =
           Some (if pluginErrors = [] then Inr plugins else Inl (summary pluginErrors))"
proof (cases "pluginErrors = []")
  case True
  then show ?thesis by (simp add: summarize_def)
next
  case False
  have "concat (map (\<lambda>e. newline @ spaces indentSpaces @ e)
                  (map snd (sort_key (\<lambda>e. String (fst e)) pluginErrors)))
        = errorLines pluginErrors"
    by (simp add: errorLines_def map_map comp_def case_prod_unfold)
  with False errorParts_char[OF assms] show ?thesis
    by (simp add: summarize_def summary_def Join_Cons Let_def)
qed

lemma resolveLoop_keys:
  assumes "resolveLoop X pd dd oa param ps plugins pluginErrors w = (plugins', pluginErrors', w')"
  shows "fst ` set plugins' \<union> fst ` set pluginErrors'
           = fst ` set plugins \<union> fst ` set pluginErrors \<union> locatorOf ` set ps"
  using assms
proof (induction ps arbitrary: plugins pluginErrors w)
  case Nil
  then show ?case by simp
next
  case (Cons c ps)
  show ?case
  proof (cases "resolveOne X pd dd oa param c w")
    case (Pair r w1)
    show ?thesis
    proof (cases r)
      case (Inl err)
      with Pair Cons.prems have
        "resolveLoop X pd dd oa param ps plugins (AList.update (locatorOf c) err pluginErrors) w1
           = (plugins', pluginErrors', w')"
        by (simp add: locatorOf_def)
      from Cons.IH[OF this] show ?thesis by (auto simp: AList.dom_update)
    next
      case (Inr info)
      with Pair Cons.prems have
        "resolveLoop X pd dd oa param ps (AList.update (locatorOf c) info plugins) pluginErrors w1
           = (plugins', pluginErrors', w')"
        by (simp add: locatorOf_def)
      from Cons.IH[OF this] show ?thesis by (auto simp: AList.dom_update)
    qed
  qed
qed

lemma resolveLoop_distinct:
  assumes "resolveLoop X pd dd oa param ps plugins pluginErrors w = (plugins', pluginErrors', w')"
      and "distinct (map fst plugins)" and "distinct (map fst pluginErrors)"
  shows "distinct (map fst plugins') \<and> distinct (map fst pluginErrors')"
  using assms
proof (induction ps arbitrary: plugins pluginErrors w)
  case Nil
  then show ?case by simp
next
  case (Cons c ps)
  show ?case
  proof (cases "resolveOne X pd dd oa param c w")
    case (Pair r w1)
    show ?thesis
    proof (cases r)
      case (Inl err)
      with Pair Cons.prems(1) have
        "resolveLoop X pd dd oa param ps plugins (AList.update (locatorOf c) err pluginErrors) w1
           = (plugins', pluginErrors', w')"
        by (simp add: locatorOf_def)
      from Cons.IH[OF this Cons.prems(2) AList.distinct_update[OF Cons.prems(3)]]
      show ?thesis .
    next
      case (Inr info)
      with Pair Cons.prems(1) have
        "resolveLoop X pd dd oa param ps (AList.update (locatorOf c) info plugins) pluginErrors w1
           = (plugins', pluginErrors', w')"
        by (simp add: locatorOf_def)
      from Cons.IH[OF this AList.distinct_update[OF Cons.prems(2)] Cons.prems(3)]
      show ?thesis .
    qed
  qed
qed

lemma resolveLoop_errors_stay:
  assumes "resolveLoop X pd dd oa param ps plugins pluginErrors w = (plugins', pluginErrors', w')"
      and "pluginErrors \<noteq> []"
  shows "pluginErrors' \<noteq> []"
  using assms
proof (induction ps arbitrary: plugins pluginErrors w)
  case Nil
  then show ?case by simp
next
  case (Cons c ps)
  show ?case
  proof (cases "resolveOne X pd dd oa param c w")
    case (Pair r w1)
    show ?thesis
    proof (cases r)
      case (Inl err)
      with Pair Cons.prems(1) have
        "resolveLoop X pd dd oa param ps plugins (AList.update (locatorOf c) err pluginErrors) w1
           = (plugins', pluginErrors', w')"
        by (simp add: locatorOf_def)
      from Cons.IH[OF this] show ?thesis by simp
    next
      case (Inr info)
      with Pair Cons.prems(1) have
        "resolveLoop X pd dd oa param ps (AList.update (locatorOf c) info plugins) pluginErrors w1
           = (plugins', pluginErrors', w')"
        by (simp add: locatorOf_def)
      from Cons.IH[OF this Cons.prems(2)] show ?thesis .
    qed
  qed
qed

lemma resolveLoop_append:
  "resolveLoop X pd dd oa param (ps @ qs) plugins pluginErrors w =
     (case resolveLoop X pd dd oa param ps plugins pluginErrors w of
        (plugins1, pluginErrors1, w1) \<Rightarrow> resolveLoop X pd dd oa param qs plugins1 pluginErrors1 w1)"
proof (induction ps arbitrary: plugins pluginErrors w)
  case Nil
  then show ?case by simp
next
  case (Cons c ps)
  then show ?case
    by (simp add: Let_def split: prod.splits sum.splits)
qed

lemma resolvePlugins_char:
  assumes "resolveLoop X pd dd oa param (Plugins param) [] [] w = (plugins, pluginErrors, w')"
  shows "resolvePlugins X pd dd oa param w =
           Some (if pluginErrors = [] then Inr plugins else Inl (summary pluginErrors), w')"
proof -
  from resolveLoop_distinct[OF assms] have "distinct (map fst pluginErrors)" by simp
  from summarize_char[OF this] assms show ?thesis
    by (simp add: resolvePlugins_def)
qed

lemma collectTasks_gen:
  assumes "distinct (map fst plugins)" and "set ys \<subseteq> set plugins"
  shows "collectTasks X pd plugins (map fst ys) tasks =
           Some (tasks @ concat (map (\<lambda>(l, info). Tasks info (pluginPath X pd l)) ys))"
  using assms(2)
proof (induction ys arbitrary: tasks)
  case Nil
  then show ?case by simp
next
  case (Cons y ys)
  obtain l info where y: "y = (l, info)" by (cases y)
  with Cons.prems have "(l, info) \<in> set plugins" and sub: "set ys \<subseteq> set plugins" by auto
  then have "map_of plugins l = Some info" using assms(1) by simp
  with Cons.IH[OF sub] show ?case by (simp add: y)
qed

lemma collectTasks_char:
  assumes "distinct (map fst plugins)"
  shows "collectTasks X pd plugins (sortLocators (map fst plugins)) [] =
           Some (concat (map (\<lambda>(l, info). Tasks info (pluginPath X pd l))
                           (sort_key (\<lambda>e. String (fst e)) plugins)))"
proof -
  have "set (sort_key (\<lambda>e. String (fst e)) plugins) \<subseteq> set plugins" by simp
  from collectTasks_gen[OF assms this, of X pd "[]"] show ?thesis
    by (simp add: sortLocators_def sort_key_map)
qed

lemma resolveLoop_errors_mono:
  assumes "resolveLoop X pd dd oa param ps plugins pluginErrors w = (plugins', pluginErrors', w')"
  shows "fst ` set pluginErrors \<subseteq> fst ` set pluginErrors'"
  using assms
proof (induction ps arbitrary: plugins pluginErrors w)
  case Nil
  then show ?case by simp
next
  case (Cons c ps)
  show ?case
  proof (cases "resolveOne X pd dd oa param c w")
    case (Pair r w1)
    show ?thesis
    proof (cases r)
      case (Inl err)
      with Pair Cons.prems(1) have
        "resolveLoop X pd dd oa param ps plugins (AList.update (locatorOf c) err pluginErrors) w1
           = (plugins', pluginErrors', w')"
        by (simp add: locatorOf_def)
      from Cons.IH[OF this] show ?thesis by (auto simp: AList.dom_update)
    next
      case (Inr info)
      with Pair Cons.prems(1) have
        "resolveLoop X pd dd oa param ps (AList.update (locatorOf c) info plugins) pluginErrors w1
           = (plugins', pluginErrors', w')"
        by (simp add: locatorOf_def)
      from Cons.IH[OF this] show ?thesis .
    qed
  qed
qed

lemma LoadPluginsTasks_char:
  assumes "projectParamsFromConfig X cfg = Inr param" and "homeSpecDir X = Inr (pd, dd)"
      and "resolveLoop X pd dd (currentOSArch X) param (Plugins param) [] [] w
             = (plugins, pluginErrors, w')"
  shows "LoadPluginsTasks X cfg w =
           Some (if pluginErrors \<noteq> [] then Inl (summary pluginErrors)
                 else if allConflicts plugins plugins \<noteq> [] then
                   Inl (report (allConflicts plugins plugins))
                 else Inr (concat (map (\<lambda>(l, info). Tasks info (pluginPath X pd l))
                                     (sort_key (\<lambda>e. String (fst e)) plugins))), w')"
proof -
  from resolveLoop_distinct[OF assms(3)] have d: "distinct (map fst plugins)" by simp
  show ?thesis
    using assms(1,2) resolvePlugins_char[OF assms(3)] verifyPluginCompatibility_char[OF d]
      collectTasks_char[OF d, of X pd]
    by (simp add: LoadPluginsTasks_def)
qed

lemma Tasks_names: "map Name (Tasks info pluginExecPath) = map TaskName (TaskInfos info)"
  by (simp add: Tasks_def comp_def)

lemmas demo_defs = demoSys_def pluginCfg_def emptyWorld_def locA_def locB_def locB2_def
  echoInfo_def echoTask_def

lemmas model_defs = resolveOne_def installPlugin_def
  extractPlugin_def verifyChecksum_def emit_def pluginFileName_def 
  Wrapf_def

lemma verifyChecksum_files: "files (snd (verifyChecksum X oa c dst w)) = files w"
  by (simp add: verifyChecksum_def emit_def Let_def split: option.splits sum.splits)

subsection \<open>Resolving a plugin whose file exists\<close>

lemma extractPlugin_frame:
  "p \<noteq> dst \<Longrightarrow> snd (extractPlugin X dst tgz fs) p = fs p"
  by (simp add: extractPlugin_def Let_def split: option.splits prod.splits)

lemma extractPlugin_creates:
  "fst (extractPlugin X dst tgz fs) = None \<Longrightarrow> snd (extractPlugin X dst tgz fs) dst \<noteq> None"
  by (auto simp: extractPlugin_def Let_def split: option.splits prod.splits)

lemma installPlugin_frame:
  assumes "\<forall>c rs oa dst fs p. p \<noteq> dst \<longrightarrow> snd (resolvePluginTGZ X c rs oa dst fs) p = fs p"
      and "p \<noteq> tgzPath X dd c" and "p \<noteq> dst"
  shows "files (snd (installPlugin X dd oa param c dst w)) p = files w p"
proof -
  let ?tgz = "tgzPath X dd c"
  obtain e fs1 where f: "resolvePluginTGZ X c (DefaultResolvers param) oa ?tgz (files w) = (e, fs1)"
    by (cases "resolvePluginTGZ X c (DefaultResolvers param) oa ?tgz (files w)")
  have fs1: "fs1 p = files w p"
    using assms(1,2) f by (metis snd_conv)
  obtain e2 fs2 where x: "extractPlugin X dst ?tgz fs1 = (e2, fs2)"
    by (cases "extractPlugin X dst ?tgz fs1")
  have fs2: "fs2 p = fs1 p"
    using extractPlugin_frame[OF assms(3), of X ?tgz fs1] x by simp
  show ?thesis
    using f x fs1 fs2
    by (simp add: installPlugin_def emit_def Let_def tgzPath_def locatorOf_def
        split: option.splits)
qed

lemma installPlugin_creates:
  assumes "fst (installPlugin X dd oa param c dst w) = None"
  shows "files (snd (installPlugin X dd oa param c dst w)) dst \<noteq> None"
proof -
  let ?tgz = "tgzPath X dd c"
  obtain e fs1 where f: "resolvePluginTGZ X c (DefaultResolvers param) oa ?tgz (files w) = (e, fs1)"
    by (cases "resolvePluginTGZ X c (DefaultResolvers param) oa ?tgz (files w)")
  obtain e2 fs2 where x: "extractPlugin X dst ?tgz fs1 = (e2, fs2)"
    by (cases "extractPlugin X dst ?tgz fs1")
  from assms f x have "e = None" and "e2 = None"
    by (auto simp: installPlugin_def emit_def Let_def tgzPath_def locatorOf_def
        split: option.splits)
  with extractPlugin_creates[of X dst ?tgz fs1] x have "fs2 dst \<noteq> None" by simp
  with f x \<open>e = None\<close> \<open>e2 = None\<close> show ?thesis
    by (simp add: installPlugin_def emit_def Let_def tgzPath_def locatorOf_def)
qed

lemma resolveOne_installed:
  assumes "files w (dstPath X pd c) \<noteq> None"
  shows "fst (resolveOne X pd dd oa param c w) = probe X pd oa c (files w)"
    and "files (snd (resolveOne X pd dd oa param c w)) = files w"
    and "probe X pd oa c (files w) = Inr info \<Longrightarrow>
           trace (snd (resolveOne X pd dd oa param c w)) = trace w @ rerunEvents X pd oa c"
  using assms
  by (auto simp: resolveOne_def probe_def verifyChecksum_def rerunEvents_def emit_def Let_def
      dstPath_def locatorOf_def split: option.splits sum.splits)

lemma resolveOne_success:
  assumes "fst (resolveOne X pd dd oa param c w) = Inr info"
  shows "files (snd (resolveOne X pd dd oa param c w)) (dstPath X pd c) \<noteq> None
       \<and> probe X pd oa c (files (snd (resolveOne X pd dd oa param c w))) = Inr info"
proof (cases "files w (dstPath X pd c) = None")
  case False
  from resolveOne_installed(1,2)[OF False, where dd = dd and oa = oa and param = param] assms False
  show ?thesis by simp
next
  case True
  let ?dst = "dstPath X pd c"
  let ?w0 = "emit (Stat ?dst) w"
  obtain e w1 where i: "installPlugin X dd oa param c ?dst ?w0 = (e, w1)"
    by (cases "installPlugin X dd oa param c ?dst ?w0")
  from assms True i have e: "e = None"
    by (auto simp: resolveOne_def emit_def Let_def dstPath_def locatorOf_def
        split: option.splits prod.splits)
  with installPlugin_creates[of X dd oa param c ?dst ?w0] i
  have c1: "files w1 ?dst \<noteq> None" by simp
  have same: "files (snd (resolveOne X pd dd oa param c w)) = files w1"
    using True i e
    by (auto simp: resolveOne_def verifyChecksum_def emit_def Let_def dstPath_def locatorOf_def
        split: option.splits sum.splits)
  have pr: "probe X pd oa c (files w1) = Inr info"
    using assms True i e
    by (auto simp: resolveOne_def probe_def verifyChecksum_def emit_def Let_def dstPath_def
        locatorOf_def split: option.splits sum.splits)
  from same c1 pr show ?thesis by simp
qed

lemma resolveOne_frame:
  assumes "\<forall>c rs oa dst fs p. p \<noteq> dst \<longrightarrow> snd (resolvePluginTGZ X c rs oa dst fs) p = fs p"
      and "files w p = Some v" and "p \<noteq> tgzPath X dd c"
  shows "files (snd (resolveOne X pd dd oa param c w)) p = Some v"
proof (cases "files w (dstPath X pd c) = None")
  case False
  from resolveOne_installed(2)[OF False] assms(2) show ?thesis by simp
next
  case True
  let ?dst = "dstPath X pd c"
  let ?w0 = "emit (Stat ?dst) w"
  from True assms(2) have ne: "p \<noteq> ?dst" by auto
  have inst: "files (snd (installPlugin X dd oa param c ?dst ?w0)) p = files ?w0 p"
    by (rule installPlugin_frame[OF assms(1) assms(3) ne])
  obtain e w1 where i: "installPlugin X dd oa param c ?dst ?w0 = (e, w1)"
    by (cases "installPlugin X dd oa param c ?dst ?w0")
  have "files (snd (resolveOne X pd dd oa param c w)) = files w1"
    using True i
    by (auto simp: resolveOne_def verifyChecksum_def emit_def Let_def dstPath_def locatorOf_def
        split: option.splits sum.splits)
  with inst i assms(2) show ?thesis by (simp add: emit_def)
qed

lemma probe_local:
  assumes "\<forall>p fs fs'. fs p = fs' p \<longrightarrow>
             sha256ChecksumFile X p fs = sha256ChecksumFile X p fs'
             \<and> InfoFromPlugin X p fs = InfoFromPlugin X p fs'"
      and "fs (dstPath X pd c) = fs' (dstPath X pd c)"
  shows "probe X pd oa c fs = probe X pd oa c fs'"
proof -
  from assms have "sha256ChecksumFile X (dstPath X pd c) fs = sha256ChecksumFile X (dstPath X pd c) fs'"
    and "InfoFromPlugin X (dstPath X pd c) fs = InfoFromPlugin X (dstPath X pd c) fs'"
    by blast+
  then show ?thesis
    by (simp add: probe_def verifyChecksum_def emit_def Let_def split: option.splits sum.splits)
qed

lemma resolveOne_installed_world:
  assumes "files w (dstPath X pd c) \<noteq> None" and "probe X pd oa c (files w) = Inr info"
  shows "resolveOne X pd dd oa param c w
           = (Inr info, w\<lparr>trace := trace w @ rerunEvents X pd oa c\<rparr>)"
  using assms
  by (auto simp: resolveOne_def probe_def verifyChecksum_def rerunEvents_def emit_def Let_def
      dstPath_def locatorOf_def split: option.splits sum.splits)

lemma resolveLoop_frame:
  assumes "\<forall>c rs oa dst fs p. p \<noteq> dst \<longrightarrow> snd (resolvePluginTGZ X c rs oa dst fs) p = fs p"
      and "files w p = Some v" and "\<forall>c\<in>set ps. p \<noteq> tgzPath X dd c"
  shows "files (snd (snd (resolveLoop X pd dd oa param ps plugins pluginErrors w))) p = Some v"
  using assms(2,3)
proof (induction ps arbitrary: plugins pluginErrors w)
  case Nil
  then show ?case by simp
next
  case (Cons c ps)
  obtain r w1 where one: "resolveOne X pd dd oa param c w = (r, w1)"
    by (cases "resolveOne X pd dd oa param c w")
  from Cons.prems have "p \<noteq> tgzPath X dd c" and rest: "\<forall>c\<in>set ps. p \<noteq> tgzPath X dd c"
    by simp_all
  from resolveOne_frame[OF assms(1) Cons.prems(1) this(1), of pd oa param] one
  have "files w1 p = Some v" by simp
  from Cons.IH[OF this rest] one show ?case
    by (cases r) (simp_all add: Let_def)
qed

lemma resolveLoop_no_errors_step:
  assumes "resolveLoop X pd dd oa param (c # ps) plugins [] w = (plugins', [], w')"
  shows "\<exists>info w1. resolveOne X pd dd oa param c w = (Inr info, w1)
           \<and> resolveLoop X pd dd oa param ps (AList.update (locatorOf c) info plugins) [] w1
               = (plugins', [], w')"
proof -
  obtain r w1 where one: "resolveOne X pd dd oa param c w = (r, w1)"
    by (cases "resolveOne X pd dd oa param c w")
  show ?thesis
  proof (cases r)
    case (Inl err)
    with one assms have
      "resolveLoop X pd dd oa param ps plugins (AList.update (locatorOf c) err []) w1
         = (plugins', [], w')"
      by (simp add: locatorOf_def)
    from resolveLoop_errors_stay[OF this] show ?thesis by simp
  next
    case (Inr info)
    with one assms show ?thesis by (simp add: locatorOf_def)
  qed
qed

lemma resolveLoop_rerun:
  assumes frame: "\<forall>c rs oa dst fs p. p \<noteq> dst \<longrightarrow> snd (resolvePluginTGZ X c rs oa dst fs) p = fs p"
      and loc: "\<forall>p fs fs'. fs p = fs' p \<longrightarrow>
                  sha256ChecksumFile X p fs = sha256ChecksumFile X p fs'
                  \<and> InfoFromPlugin X p fs = InfoFromPlugin X p fs'"
  shows "resolveLoop X pd dd oa param ps plugins [] w = (plugins', [], w')
         \<Longrightarrow> \<forall>c\<in>set ps. \<forall>c'\<in>set ps. tgzPath X dd c' \<noteq> dstPath X pd c
         \<Longrightarrow> \<forall>c\<in>set ps. files w2 (dstPath X pd c) = files w' (dstPath X pd c)
         \<Longrightarrow> resolveLoop X pd dd oa param ps plugins [] w2
               = (plugins', [], w2\<lparr>trace := trace w2 @ concat (map (rerunEvents X pd oa) ps)\<rparr>)"
proof (induction ps arbitrary: plugins w w2)
  case Nil
  then show ?case by simp
next
  case (Cons c ps)
  let ?dst = "dstPath X pd c"
  from resolveLoop_no_errors_step[OF Cons.prems(1)] obtain info w1 where
    one: "resolveOne X pd dd oa param c w = (Inr info, w1)" and
    rest: "resolveLoop X pd dd oa param ps (AList.update (locatorOf c) info plugins) [] w1
             = (plugins', [], w')"
    by blast
  from resolveOne_success[of X pd dd oa param c w info] one
  obtain v where ex: "files w1 ?dst = Some v" and pr: "probe X pd oa c (files w1) = Inr info"
    by auto
  from Cons.prems(2) have apart: "\<forall>c'\<in>set ps. ?dst \<noteq> tgzPath X dd c'" by auto
  from resolveLoop_frame[OF frame ex apart, of pd oa param
      "AList.update (locatorOf c) info plugins" "[]"] rest
  have "files w' ?dst = Some v" by simp
  with Cons.prems(3) have ex2: "files w2 ?dst = Some v" by simp
  from probe_local[OF loc, of "files w2" pd c "files w1" oa] ex ex2 pr
  have pr2: "probe X pd oa c (files w2) = Inr info" by simp
  let ?w2a = "w2\<lparr>trace := trace w2 @ rerunEvents X pd oa c\<rparr>"
  have one2: "resolveOne X pd dd oa param c w2 = (Inr info, ?w2a)"
    by (rule resolveOne_installed_world) (simp_all add: ex2 pr2)
  have p2: "\<forall>c\<in>set ps. \<forall>c'\<in>set ps. tgzPath X dd c' \<noteq> dstPath X pd c"
    using Cons.prems(2) by simp
  have p3: "\<forall>c\<in>set ps. files ?w2a (dstPath X pd c) = files w' (dstPath X pd c)"
    using Cons.prems(3) by simp
  from Cons.IH[OF rest p2 p3] one2 show ?case
    by (simp add: locatorOf_def)
qed

subsection \<open>Plugins of the same group and product\<close>

text \<open>
  Claim C10. For two resolved plugins \<open>P\<close> and \<open>Q\<close> of the same group and product,
  the conflicts of \<open>P\<close> hold exactly one entry for \<open>Q\<close>, the message
  \<^verbatim>\<open>different version of the same plugin\<close>, whatever tasks the two plugins declare;
  that message is no report of conflicting tasks.
\<close>
theorem same_product_only_different_version:
  assumes "distinct (map fst plugins)"
      and "(P, pi) \<in> set plugins" and "(Q, qi) \<in> set plugins" and "P \<noteq> Q"
      and "Group Q = Group P" and "Product Q = Product P"
  shows "\<exists>errs. verifySinglePluginCompatibility P plugins = Some errs
           \<and> filter (\<lambda>e. fst e = Q) errs = [(Q, differentVersion)]
           \<and> (\<forall>names. differentVersion \<noteq> conflictingTasks names)"
proof -
  have look: "map_of plugins P = Some pi" using assms(1,2) by simp
  have single: "verifySinglePluginCompatibility P plugins = Some (conflictsOf P pi plugins)"
    by (rule verifySingle_char[OF look assms(1)])
  have "map_of (conflictsOf P pi plugins) Q = pairConflict P pi Q qi"
    by (rule map_of_conflictsOf[OF assms(1,3)])
  also have "\<dots> = Some differentVersion"
    using assms(4-6) by (simp add: pairConflict_def)
  finally have "filter (\<lambda>e. fst e = Q) (conflictsOf P pi plugins) = [(Q, differentVersion)]"
    using filter_key_distinct[OF distinct_conflictsOf[OF assms(1)]] by blast
  with single differentVersion_not_tasks show ?thesis by blast
qed

theorem same_product_only_different_version_witness:
  "\<exists>errs. verifySinglePluginCompatibility locB versionPlugins = Some errs
     \<and> filter (\<lambda>e. fst e = locB2) errs = [(locB2, differentVersion)]
     \<and> (\<forall>names. differentVersion \<noteq> conflictingTasks names)"
proof -
  have d: "distinct (map fst versionPlugins)"
    by (simp add: versionPlugins_def locB_def locB2_def)
  have p: "(locB, echoInfo [''lint'']) \<in> set versionPlugins"
    and q: "(locB2, echoInfo [''lint'']) \<in> set versionPlugins"
    by (simp_all add: versionPlugins_def)
  have n: "locB \<noteq> locB2" by (simp add: locB_def locB2_def)
  have g: "Group locB2 = Group locB" and r: "Product locB2 = Product locB"
    by (simp_all add: locB_def locB2_def)
  show ?thesis
    by (rule same_product_only_different_version[OF d p q n g r])
qed

subsection \<open>Symmetry of the conflicts\<close>

text \<open>
  Claim C6. Conflict reporting is symmetric. For two resolved plugins \<open>P\<close> and \<open>Q\<close>
  that share group and product, or that both declare a task named \<open>t\<close>, the conflicts of
  \<open>P\<close> have an entry for \<open>Q\<close> and the conflicts of \<open>Q\<close> have an entry for \<open>P\<close>.
  Plugins of the same group and product report the different version on both sides; otherwise
  both sides report conflicting tasks, \<open>t\<close> is among the names reported on either side, and
  the two sides report the same set of names.
\<close>
theorem conflicts_symmetric:
  assumes "distinct (map fst plugins)"
      and "(P, pi) \<in> set plugins" and "(Q, qi) \<in> set plugins" and "P \<noteq> Q"
      and "(Group Q = Group P \<and> Product Q = Product P)
           \<or> (t \<in> set (map TaskName (TaskInfos pi)) \<and> t \<in> set (map TaskName (TaskInfos qi)))"
  shows "\<exists>errsP errsQ.
           verifySinglePluginCompatibility P plugins = Some errsP
         \<and> verifySinglePluginCompatibility Q plugins = Some errsQ
         \<and> Q \<in> fst ` set errsP \<and> P \<in> fst ` set errsQ
         \<and> (if Group Q = Group P \<and> Product Q = Product P then
              map_of errsP Q = Some differentVersion \<and> map_of errsQ P = Some differentVersion
            else
              map_of errsP Q = Some (conflictingTasks (commonTasks pi qi))
            \<and> map_of errsQ P = Some (conflictingTasks (commonTasks qi pi))
            \<and> t \<in> set (commonTasks pi qi) \<and> t \<in> set (commonTasks qi pi)
            \<and> set (commonTasks pi qi) = set (commonTasks qi pi))"
proof -
  have lookP: "map_of plugins P = Some pi" and lookQ: "map_of plugins Q = Some qi"
    using assms(1-3) by simp_all
  have sP: "verifySinglePluginCompatibility P plugins = Some (conflictsOf P pi plugins)"
    by (rule verifySingle_char[OF lookP assms(1)])
  have sQ: "verifySinglePluginCompatibility Q plugins = Some (conflictsOf Q qi plugins)"
    by (rule verifySingle_char[OF lookQ assms(1)])
  have mP: "map_of (conflictsOf P pi plugins) Q = pairConflict P pi Q qi"
    by (rule map_of_conflictsOf[OF assms(1,3)])
  have mQ: "map_of (conflictsOf Q qi plugins) P = pairConflict Q qi P pi"
    by (rule map_of_conflictsOf[OF assms(1,2)])
  show ?thesis
  proof (cases "Group Q = Group P \<and> Product Q = Product P")
    case True
    with assms(4) have "pairConflict P pi Q qi = Some differentVersion"
      and "pairConflict Q qi P pi = Some differentVersion"
      by (auto simp: pairConflict_def)
    with mP mQ have eP: "map_of (conflictsOf P pi plugins) Q = Some differentVersion"
      and eQ: "map_of (conflictsOf Q qi plugins) P = Some differentVersion" by simp_all
    from eP eQ have "Q \<in> fst ` set (conflictsOf P pi plugins)"
      and "P \<in> fst ` set (conflictsOf Q qi plugins)"
      by (auto dest!: map_of_SomeD intro: rev_image_eqI)
    with sP sQ eP eQ True show ?thesis by auto
  next
    case False
    with assms(5) have t: "t \<in> set (commonTasks pi qi)" "t \<in> set (commonTasks qi pi)"
      by (auto simp: set_commonTasks)
    then have ne: "commonTasks pi qi \<noteq> []" "commonTasks qi pi \<noteq> []" by auto
    from False have False': "\<not> (Group P = Group Q \<and> Product P = Product Q)" by auto
    have "pairConflict P pi Q qi = Some (conflictingTasks (commonTasks pi qi))"
      using False assms(4) ne by (auto simp: pairConflict_def)
    moreover have "pairConflict Q qi P pi = Some (conflictingTasks (commonTasks qi pi))"
      using False' assms(4) ne by (auto simp: pairConflict_def)
    ultimately have eP: "map_of (conflictsOf P pi plugins) Q = Some (conflictingTasks (commonTasks pi qi))"
      and eQ: "map_of (conflictsOf Q qi plugins) P = Some (conflictingTasks (commonTasks qi pi))"
      using mP mQ by simp_all
    from eP eQ have "Q \<in> fst ` set (conflictsOf P pi plugins)"
      and "P \<in> fst ` set (conflictsOf Q qi plugins)"
      by (auto dest!: map_of_SomeD intro: rev_image_eqI)
    moreover have "set (commonTasks pi qi) = set (commonTasks qi pi)"
      by (auto simp: set_commonTasks)
    ultimately show ?thesis using sP sQ eP eQ False t by auto
  qed
qed

theorem conflicts_symmetric_witness:
  "\<exists>errsP errsQ.
     verifySinglePluginCompatibility locB lintPlugins = Some errsP
   \<and> verifySinglePluginCompatibility locA lintPlugins = Some errsQ
   \<and> locA \<in> fst ` set errsP \<and> locB \<in> fst ` set errsQ
   \<and> (if Group locA = Group locB \<and> Product locA = Product locB then
        map_of errsP locA = Some differentVersion \<and> map_of errsQ locB = Some differentVersion
      else
        map_of errsP locA
          = Some (conflictingTasks (commonTasks (echoInfo [''lint'', ''fmt'']) (echoInfo [''test'', ''lint''])))
      \<and> map_of errsQ locB
          = Some (conflictingTasks (commonTasks (echoInfo [''test'', ''lint'']) (echoInfo [''lint'', ''fmt''])))
      \<and> ''lint'' \<in> set (commonTasks (echoInfo [''lint'', ''fmt'']) (echoInfo [''test'', ''lint'']))
      \<and> ''lint'' \<in> set (commonTasks (echoInfo [''test'', ''lint'']) (echoInfo [''lint'', ''fmt'']))
      \<and> set (commonTasks (echoInfo [''lint'', ''fmt'']) (echoInfo [''test'', ''lint'']))
          = set (commonTasks (echoInfo [''test'', ''lint'']) (echoInfo [''lint'', ''fmt''])))"
proof -
  have d: "distinct (map fst lintPlugins)"
    by (simp add: lintPlugins_def locA_def locB_def)
  have p: "(locB, echoInfo [''lint'', ''fmt'']) \<in> set lintPlugins"
    and q: "(locA, echoInfo [''test'', ''lint'']) \<in> set lintPlugins"
    by (simp_all add: lintPlugins_def)
  have n: "locB \<noteq> locA" by (simp add: locA_def locB_def)
  have c: "(Group locA = Group locB \<and> Product locA = Product locB)
           \<or> (''lint'' \<in> set (map TaskName (TaskInfos (echoInfo [''lint'', ''fmt''])))
              \<and> ''lint'' \<in> set (map TaskName (TaskInfos (echoInfo [''test'', ''lint'']))))"
    by (simp add: echoInfo_def echoTask_def)
  show ?thesis
    by (rule conflicts_symmetric[OF d p q n c])
qed

subsection \<open>The summary of the errors\<close>

text \<open>
  Claim C4. The loop of \<^verbatim>\<open>resolvePlugins\<close> runs over all declared plugins: at its end
  every declared locator is a key of the map of the plugins or of the map of the errors.
  If the map of the errors is not empty, \<^verbatim>\<open>resolvePlugins\<close> returns the summary:
  \<^verbatim>\<open>failed to resolve N plugin:\<close> for one error and \<^verbatim>\<open>failed to resolve N plugins:\<close>
  otherwise, followed by the error of each plugin on a line indented by four spaces, in the
  order of the locators.
\<close>
theorem resolve_sweeps_and_summarizes:
  "case resolveLoop X pd dd oa param (Plugins param) [] [] w of
     (plugins, pluginErrors, w') \<Rightarrow>
       fst ` set plugins \<union> fst ` set pluginErrors = locatorOf ` set (Plugins param)
     \<and> resolvePlugins X pd dd oa param w =
         Some (if pluginErrors = [] then Inr plugins else Inl (summary pluginErrors), w')
     \<and> sorted (map (\<lambda>e. String (fst e)) (sort_key (\<lambda>e. String (fst e)) pluginErrors))"
proof (cases "resolveLoop X pd dd oa param (Plugins param) [] [] w")
  case (fields plugins pluginErrors w')
  from resolveLoop_keys[OF fields] resolvePlugins_char[OF fields] fields
  show ?thesis by simp
qed

theorem resolve_sweeps_and_summarizes_witness:
  "map_option fst (resolvePlugins demoSys ''/h/plugins'' ''/h/downloads'' (''linux'', ''amd64'')
                     failParams emptyWorld)
     = Some (Inl (''failed to resolve 2 plugins:'' @
                  newline @ ''    failed to extract plugin from archive into destination: archive is not readable'' @
                  newline @ ''    no resolver could retrieve the archive''))"
proof -
  define r where
    "r = resolveLoop demoSys ''/h/plugins'' ''/h/downloads'' (''linux'', ''amd64'') failParams
           (Plugins failParams) [] [] emptyWorld"
  have errs: "fst (snd r) =
      [(locB, ''no resolver could retrieve the archive''),
       (locA, ''failed to extract plugin from archive into destination: archive is not readable'')]"
    by (simp add: r_def failParams_def demo_defs model_defs Let_def)
  have "resolvePlugins demoSys ''/h/plugins'' ''/h/downloads'' (''linux'', ''amd64'') failParams emptyWorld
          = Some (if fst (snd r) = [] then Inr (fst r) else Inl (summary (fst (snd r))), snd (snd r))"
    using resolve_sweeps_and_summarizes
          [where X = demoSys and pd = "''/h/plugins''" and dd = "''/h/downloads''"
             and oa = "(''linux'', ''amd64'')" and param = failParams and w = emptyWorld]
    by (simp add: r_def split: prod.splits)
  then show ?thesis
    by (simp add: errs summary_def errorLines_def String_def locA_def locB_def
        digits.simps digit_def spaces_def indentSpaces_def eval_nat_numeral)
qed

subsection \<open>A failed plugin fails the load\<close>

text \<open>
  Claim C9. If the resolution of a declared plugin fails in its turn (the body of the loop
  records an error for it, which it does when the download, the unpacking, the checksum or
  the information of the plugin fails), then \<^verbatim>\<open>resolvePlugins\<close> and
  \<^verbatim>\<open>LoadPluginsTasks\<close> return the summary of the errors, which has an entry for that
  plugin, and no tasks: none of the plugins that were resolved contributes a task.
\<close>
theorem failed_step_fails_load:
  assumes "projectParamsFromConfig X cfg = Inr param"
      and "homeSpecDir X = Inr (pd, dd)"
      and "Plugins param = before @ c # after"
      and "fst (resolveOne X pd dd (currentOSArch X) param c
                  (snd (snd (resolveLoop X pd dd (currentOSArch X) param before [] [] w))))
             = Inl err"
  shows "\<exists>pluginErrors w'.
           locatorOf c \<in> fst ` set pluginErrors
         \<and> resolvePlugins X pd dd (currentOSArch X) param w = Some (Inl (summary pluginErrors), w')
         \<and> LoadPluginsTasks X cfg w = Some (Inl (summary pluginErrors), w')"
proof -
  let ?oa = "currentOSArch X"
  obtain p1 e1 w1 where pre: "resolveLoop X pd dd ?oa param before [] [] w = (p1, e1, w1)"
    by (cases "resolveLoop X pd dd ?oa param before [] [] w")
  obtain w2 where one: "resolveOne X pd dd ?oa param c w1 = (Inl err, w2)"
    using assms(4) pre by (cases "resolveOne X pd dd ?oa param c w1") auto
  obtain p3 e3 w3 where post:
    "resolveLoop X pd dd ?oa param after p1 (AList.update (locatorOf c) err e1) w2 = (p3, e3, w3)"
    by (cases "resolveLoop X pd dd ?oa param after p1 (AList.update (locatorOf c) err e1) w2")
  have whole: "resolveLoop X pd dd ?oa param (Plugins param) [] [] w = (p3, e3, w3)"
    using pre one post by (simp add: assms(3) resolveLoop_append locatorOf_def)
  have "locatorOf c \<in> fst ` set (AList.update (locatorOf c) err e1)"
    by (simp add: AList.dom_update)
  with resolveLoop_errors_mono[OF post] have key: "locatorOf c \<in> fst ` set e3" by blast
  then have ne: "e3 \<noteq> []" by auto
  from resolvePlugins_char[OF whole] ne
  have "resolvePlugins X pd dd ?oa param w = Some (Inl (summary e3), w3)" by simp
  moreover from LoadPluginsTasks_char[OF assms(1,2) whole] ne
  have "LoadPluginsTasks X cfg w = Some (Inl (summary e3), w3)" by simp
  ultimately show ?thesis using key by blast
qed

theorem failed_step_fails_load_witness:
  "\<exists>pluginErrors w'.
     locatorOf (pluginCfg locB [] Map.empty) \<in> fst ` set pluginErrors
   \<and> resolvePlugins demoSys ''/h/plugins'' ''/h/downloads'' (currentOSArch demoSys) midFailParams emptyWorld
       = Some (Inl (summary pluginErrors), w')
   \<and> LoadPluginsTasks demoSys midFailParams emptyWorld = Some (Inl (summary pluginErrors), w')"
proof -
  have a1: "projectParamsFromConfig demoSys midFailParams = Inr midFailParams"
    by (simp add: demoSys_def)
  have a2: "homeSpecDir demoSys = Inr (''/h/plugins'', ''/h/downloads'')"
    by (simp add: demoSys_def)
  have a3: "Plugins midFailParams
              = [pluginCfg locB2 ''lint'' Map.empty] @ pluginCfg locB [] Map.empty
                  # [pluginCfg locA ''test'' Map.empty]"
    by (simp add: midFailParams_def)
  have a4: "fst (resolveOne demoSys ''/h/plugins'' ''/h/downloads'' (currentOSArch demoSys)
                   midFailParams (pluginCfg locB [] Map.empty)
                   (snd (snd (resolveLoop demoSys ''/h/plugins'' ''/h/downloads''
                                (currentOSArch demoSys) midFailParams
                                [pluginCfg locB2 ''lint'' Map.empty] [] [] emptyWorld))))
              = Inl ''no resolver could retrieve the archive''"
    by (simp add: midFailParams_def demo_defs model_defs Let_def)
  show ?thesis
    by (rule failed_step_fails_load[OF a1 a2 a3 a4])
qed

subsection \<open>The order of the tasks\<close>

text \<open>
  Claim C7. A load that succeeds returns the tasks of the resolved plugins, concatenated in
  the order of the locators (each resolved plugin once); the tasks of one plugin are in the
  order in which the plugin declares them.
\<close>
theorem tasks_in_locator_order:
  assumes "map_option fst (LoadPluginsTasks X cfg w) = Some (Inr tasks)"
  shows "\<exists>param pd dd plugins.
           projectParamsFromConfig X cfg = Inr param
         \<and> homeSpecDir X = Inr (pd, dd)
         \<and> map_option fst (resolvePlugins X pd dd (currentOSArch X) param w) = Some (Inr plugins)
         \<and> tasks = concat (map (\<lambda>(l, info). Tasks info (pluginPath X pd l))
                              (sort_key (\<lambda>e. String (fst e)) plugins))
         \<and> sorted (map (\<lambda>e. String (fst e)) (sort_key (\<lambda>e. String (fst e)) plugins))
         \<and> set (sort_key (\<lambda>e. String (fst e)) plugins) = set plugins
         \<and> distinct (map fst (sort_key (\<lambda>e. String (fst e)) plugins))
         \<and> map Name tasks
             = concat (map (\<lambda>(l, info). map TaskName (TaskInfos info))
                         (sort_key (\<lambda>e. String (fst e)) plugins))"
proof -
  from assms obtain param where a1: "projectParamsFromConfig X cfg = Inr param"
    by (cases "projectParamsFromConfig X cfg") (auto simp: LoadPluginsTasks_def)
  from assms a1 obtain pd dd where a2: "homeSpecDir X = Inr (pd, dd)"
    by (cases "homeSpecDir X") (auto simp: LoadPluginsTasks_def)
  obtain plugins pluginErrors w' where loop:
    "resolveLoop X pd dd (currentOSArch X) param (Plugins param) [] [] w = (plugins, pluginErrors, w')"
    by (cases "resolveLoop X pd dd (currentOSArch X) param (Plugins param) [] [] w")
  from assms LoadPluginsTasks_char[OF a1 a2 loop]
  have ne: "pluginErrors = []"
    and t: "tasks = concat (map (\<lambda>(l, info). Tasks info (pluginPath X pd l))
                              (sort_key (\<lambda>e. String (fst e)) plugins))"
    by (auto split: if_splits)
  from resolvePlugins_char[OF loop] ne
  have "map_option fst (resolvePlugins X pd dd (currentOSArch X) param w) = Some (Inr plugins)"
    by simp
  moreover from resolveLoop_distinct[OF loop]
  have "distinct (map fst (sort_key (\<lambda>e. String (fst e)) plugins))"
    using sort_key_map[of String fst plugins, symmetric] by simp
  moreover have "map Name tasks
             = concat (map (\<lambda>(l, info). map TaskName (TaskInfos info))
                         (sort_key (\<lambda>e. String (fst e)) plugins))"
    unfolding t by (simp add: map_concat comp_def case_prod_unfold Tasks_names)
  ultimately show ?thesis using a1 a2 t by auto
qed


theorem tasks_in_locator_order_witness:
  "\<exists>param pd dd plugins.
     projectParamsFromConfig demoSys okParams = Inr param
   \<and> homeSpecDir demoSys = Inr (pd, dd)
   \<and> map_option fst (resolvePlugins demoSys pd dd (currentOSArch demoSys) param emptyWorld)
       = Some (Inr plugins)
   \<and> Tasks (echoInfo [''test'']) ''/h/plugins/com.palantir-a-1.0.0''
       @ Tasks (echoInfo [''lint'']) ''/h/plugins/com.palantir-b-1.0.0''
       = concat (map (\<lambda>(l, info). Tasks info (pluginPath demoSys pd l))
                   (sort_key (\<lambda>e. String (fst e)) plugins))
   \<and> sorted (map (\<lambda>e. String (fst e)) (sort_key (\<lambda>e. String (fst e)) plugins))
   \<and> set (sort_key (\<lambda>e. String (fst e)) plugins) = set plugins
   \<and> distinct (map fst (sort_key (\<lambda>e. String (fst e)) plugins))
   \<and> map Name (Tasks (echoInfo [''test'']) ''/h/plugins/com.palantir-a-1.0.0''
                 @ Tasks (echoInfo [''lint'']) ''/h/plugins/com.palantir-b-1.0.0'')
       = concat (map (\<lambda>(l, info). map TaskName (TaskInfos info))
                   (sort_key (\<lambda>e. String (fst e)) plugins))"
proof -
  have "map_option fst (LoadPluginsTasks demoSys okParams emptyWorld)
          = Some (Inr (Tasks (echoInfo [''test'']) ''/h/plugins/com.palantir-a-1.0.0''
                       @ Tasks (echoInfo [''lint'']) ''/h/plugins/com.palantir-b-1.0.0''))"
    by (simp add: LoadPluginsTasks_def resolvePlugins_def summarize_def okParams_def demo_defs
        model_defs Let_def verifyPluginCompatibility_def verifySinglePluginCompatibility_def
        commonTasks_def Tasks_def sortLocators_def String_def pluginPath_def)
  then show ?thesis
    by (rule tasks_in_locator_order)
qed

subsection \<open>A conflict fails the load\<close>

text \<open>
  Claim C5. If two of the resolved plugins conflict (they share group and product, or both
  declare a task of the same name), the compatibility check returns an error and
  \<^verbatim>\<open>LoadPluginsTasks\<close> returns that error and no tasks. The error is the report: the
  plugins that have conflicts in the order of the locators, under each of them its conflicts
  in the order of the locators of the other plugins, and the names of conflicting tasks
  sorted. Where distinct locators have distinct string forms, the error is the same for every
  order in which the map of the plugins is visited.
\<close>
theorem conflict_fails_load:
  assumes "projectParamsFromConfig X cfg = Inr param"
      and "homeSpecDir X = Inr (pd, dd)"
      and "map_option fst (resolvePlugins X pd dd (currentOSArch X) param w) = Some (Inr plugins)"
      and "(P, pi) \<in> set plugins" and "(Q, qi) \<in> set plugins" and "P \<noteq> Q"
      and "(Group Q = Group P \<and> Product Q = Product P)
           \<or> (t \<in> set (map TaskName (TaskInfos pi)) \<and> t \<in> set (map TaskName (TaskInfos qi)))"
  shows "verifyPluginCompatibility plugins = Some (Some (report (allConflicts plugins plugins)))
       \<and> map_option fst (LoadPluginsTasks X cfg w)
           = Some (Inl (report (allConflicts plugins plugins)))
       \<and> (\<forall>currInfo otherInfo. sorted (commonTasks currInfo otherInfo))
       \<and> (\<forall>plugins'. distinct (map fst plugins') \<and> set plugins' = set plugins
                      \<and> inj_on String (fst ` set plugins)
              \<longrightarrow> verifyPluginCompatibility plugins' = verifyPluginCompatibility plugins)"
proof -
  obtain plugins0 pluginErrors w' where loop:
    "resolveLoop X pd dd (currentOSArch X) param (Plugins param) [] [] w
       = (plugins0, pluginErrors, w')"
    by (cases "resolveLoop X pd dd (currentOSArch X) param (Plugins param) [] [] w")
  from assms(3) resolvePlugins_char[OF loop]
  have ne: "pluginErrors = []" and same: "plugins0 = plugins"
    by (auto split: if_splits)
  from resolveLoop_distinct[OF loop] same have d: "distinct (map fst plugins)" by simp
  have "pairConflict P pi Q qi \<noteq> None"
  proof (cases "Group Q = Group P \<and> Product Q = Product P")
    case True
    with assms(6) show ?thesis by (simp add: pairConflict_def)
  next
    case False
    with assms(7) have "t \<in> set (commonTasks pi qi)" by (auto simp: set_commonTasks)
    then have "commonTasks pi qi \<noteq> []" by auto
    with False assms(6) show ?thesis by (auto simp: pairConflict_def)
  qed
  with map_of_conflictsOf[OF d assms(5), of P pi]
  have "conflictsOf P pi plugins \<noteq> []" by auto
  then have "(P, conflictsOf P pi plugins) \<in> set (allConflicts plugins plugins)"
    using assms(4) by (force simp: allConflicts_def)
  then have conf: "allConflicts plugins plugins \<noteq> []" by auto
  have v: "verifyPluginCompatibility plugins = Some (Some (report (allConflicts plugins plugins)))"
    using verifyPluginCompatibility_char[OF d] conf by simp
  have l: "map_option fst (LoadPluginsTasks X cfg w)
             = Some (Inl (report (allConflicts plugins plugins)))"
    using LoadPluginsTasks_char[OF assms(1,2) loop] ne same conf by simp
  have p: "\<forall>plugins'. distinct (map fst plugins') \<and> set plugins' = set plugins
                      \<and> inj_on String (fst ` set plugins)
              \<longrightarrow> verifyPluginCompatibility plugins' = verifyPluginCompatibility plugins"
    using verifyPluginCompatibility_perm[OF d] by blast
  from v l p sorted_commonTasks show ?thesis by blast
qed

theorem conflict_fails_load_witness:
  "verifyPluginCompatibility conflictPlugins
     = Some (Some (report (allConflicts conflictPlugins conflictPlugins)))
   \<and> map_option fst (LoadPluginsTasks demoSys conflictParams emptyWorld)
       = Some (Inl (report (allConflicts conflictPlugins conflictPlugins)))
   \<and> sorted (commonTasks (echoInfo [''lint'']) (echoInfo [''lint'']))
   \<and> verifyPluginCompatibility (rev conflictPlugins) = verifyPluginCompatibility conflictPlugins
   \<and> report (allConflicts conflictPlugins conflictPlugins)
       = ''2 plugins had compatibility issues:'' @
         newline @ ''    com.palantir:a:1.0.0:'' @
         newline @ ''        provides conflicting tasks: [lint]'' @
         newline @ ''    com.palantir:b:1.0.0:'' @
         newline @ ''        provides conflicting tasks: [lint]''"
proof -
  have a1: "projectParamsFromConfig demoSys conflictParams = Inr conflictParams"
    by (simp add: demoSys_def)
  have a2: "homeSpecDir demoSys = Inr (''/h/plugins'', ''/h/downloads'')"
    by (simp add: demoSys_def)
  have a3: "map_option fst (resolvePlugins demoSys ''/h/plugins'' ''/h/downloads''
                              (currentOSArch demoSys) conflictParams emptyWorld)
              = Some (Inr conflictPlugins)"
    by (simp add: resolvePlugins_def summarize_def conflictParams_def conflictPlugins_def
        demo_defs model_defs Let_def)
  have p: "(locB, echoInfo [''lint'']) \<in> set conflictPlugins"
    and q: "(locA, echoInfo [''lint'']) \<in> set conflictPlugins"
    by (simp_all add: conflictPlugins_def)
  have n: "locB \<noteq> locA" by (simp add: locA_def locB_def)
  have c: "(Group locA = Group locB \<and> Product locA = Product locB)
           \<or> (''lint'' \<in> set (map TaskName (TaskInfos (echoInfo [''lint''])))
              \<and> ''lint'' \<in> set (map TaskName (TaskInfos (echoInfo [''lint'']))))"
    by (simp add: echoInfo_def echoTask_def)
  note main = conflict_fails_load[OF a1 a2 a3 p q n c]
  have d: "distinct (map fst (rev conflictPlugins))"
    by (simp add: conflictPlugins_def locA_def locB_def)
  have inj: "inj_on String (fst ` set conflictPlugins)"
    by (simp add: conflictPlugins_def locA_def locB_def String_def)
  from main d inj
  have perm: "verifyPluginCompatibility (rev conflictPlugins)
                = verifyPluginCompatibility conflictPlugins"
    by simp
  have rep: "report (allConflicts conflictPlugins conflictPlugins)
       = ''2 plugins had compatibility issues:'' @
         newline @ ''    com.palantir:a:1.0.0:'' @
         newline @ ''        provides conflicting tasks: [lint]'' @
         newline @ ''    com.palantir:b:1.0.0:'' @
         newline @ ''        provides conflicting tasks: [lint]''"
    by (simp add: report_def pluginLines_def conflictLines_def allConflicts_def conflictsOf_def
        pairConflict_def commonTasks_def Tasks_def conflictPlugins_def locA_def locB_def
        echoInfo_def echoTask_def conflictingTasks_def fmtStrings_def String_def
        digits.simps digit_def spaces_def indentSpaces_def eval_nat_numeral)
  from main perm rep show ?thesis by (intro conjI) simp_all
qed

subsection \<open>The checksum of a plugin\<close>

text \<open>
  Claim C2, as amended. For a plugin with a checksum configured for the operating system and
  architecture, whose file is installed, the digest that \<^verbatim>\<open>sha256ChecksumFile\<close> computes
  is compared with the configured one by equality of strings, case included. When they differ
  the error of the plugin is \<^verbatim>\<open>failed to verify checksum for <path>: want <configured>, got
  <computed>\<close>, and the file system is left as it was: the file is retained.
\<close>
theorem checksum_compared_exactly:
  assumes "Checksums (LocatorWithChecksums currPlugin) osArch = Some wantChecksum"
      and "sha256ChecksumFile X (dstPath X pluginsDir currPlugin) (files w) = Inr gotChecksum"
      and "files w (dstPath X pluginsDir currPlugin) = Some content"
  shows "fst (verifyChecksum X osArch currPlugin (dstPath X pluginsDir currPlugin) w)
           = (if gotChecksum = wantChecksum then None
              else Some (checksumMismatch (dstPath X pluginsDir currPlugin) wantChecksum gotChecksum))
       \<and> (gotChecksum \<noteq> wantChecksum \<longrightarrow>
            fst (resolveOne X pluginsDir downloadsDir osArch param currPlugin w)
              = Inl (checksumMismatch (dstPath X pluginsDir currPlugin) wantChecksum gotChecksum)
          \<and> files (snd (resolveOne X pluginsDir downloadsDir osArch param currPlugin w)) = files w)"
  using assms
  by (simp add: verifyChecksum_def resolveOne_def emit_def Let_def checksumMismatch_def
      dstPath_def locatorOf_def)

theorem checksum_compared_exactly_witness:
  "fst (resolveOne demoSys ''/h/plugins'' ''/h/downloads'' (''linux'', ''amd64'') checksumParams
          (pluginCfg locA ''test'' upperChecksum) installedWorld)
     = Inl (checksumMismatch ''/h/plugins/com.palantir-a-1.0.0'' ''C0FFEETEST'' ''c0ffeetest'')
   \<and> files (snd (resolveOne demoSys ''/h/plugins'' ''/h/downloads'' (''linux'', ''amd64'')
                    checksumParams (pluginCfg locA ''test'' upperChecksum) installedWorld))
       ''/h/plugins/com.palantir-a-1.0.0'' = Some ''test''"
proof -
  let ?c = "pluginCfg locA ''test'' upperChecksum"
  have p: "dstPath demoSys ''/h/plugins'' ?c = ''/h/plugins/com.palantir-a-1.0.0''"
    by (simp add: dstPath_def locatorOf_def pluginFileName_def demo_defs)
  have a1: "Checksums (LocatorWithChecksums ?c) (''linux'', ''amd64'') = Some ''C0FFEETEST''"
    by (simp add: pluginCfg_def upperChecksum_def)
  have a2: "sha256ChecksumFile demoSys (dstPath demoSys ''/h/plugins'' ?c) (files installedWorld)
              = Inr ''c0ffeetest''"
    unfolding p by (simp add: installedWorld_def demoSys_def)
  have a3: "files installedWorld (dstPath demoSys ''/h/plugins'' ?c) = Some ''test''"
    by (simp add: p installedWorld_def)
  from checksum_compared_exactly[OF a1 a2 a3, of "''/h/downloads''" checksumParams]
  show ?thesis
    by (simp add: p installedWorld_def)
qed

text \<open>
  The comparison does not ignore case: a configured digest in upper case is rejected against
  the same digest computed in lower case.
\<close>

theorem checksum_case_counterexample:
  "EqualFold ''C0FFEETEST'' ''c0ffeetest''
   \<and> sha256ChecksumFile demoSys ''/h/plugins/com.palantir-a-1.0.0'' (files installedWorld)
       = Inr ''c0ffeetest''
   \<and> fst (verifyChecksum demoSys (''linux'', ''amd64'') (pluginCfg locA ''test'' upperChecksum)
             ''/h/plugins/com.palantir-a-1.0.0'' installedWorld)
       = Some ''failed to verify checksum for /h/plugins/com.palantir-a-1.0.0: want C0FFEETEST, got c0ffeetest''"
  by (simp add: EqualFold_def lowerChar_def verifyChecksum_def installedWorld_def demoSys_def
      pluginCfg_def upperChecksum_def emit_def)

subsection \<open>A failed unpacking\<close>

text \<open>
  Claim C3, as amended. When the file of a plugin does not exist, its archive is downloaded,
  the file is created in place and the unpacking then fails, the error of the plugin is
  \<^verbatim>\<open>failed to extract plugin from archive into destination\<close> with its cause, neither
  the checksum nor the information of the plugin is computed, and the file that was created
  remains at the install path: it is not written through a temporary sibling and it is not
  removed.
\<close>
theorem failed_unpack_leaves_file:
  assumes "files w (dstPath X pluginsDir currPlugin) = None"
      and "resolvePluginTGZ X currPlugin (DefaultResolvers param) osArch
             (tgzPath X downloadsDir currPlugin) (files w) = (None, fs1)"
      and "createError X (dstPath X pluginsDir currPlugin) = None"
      and "fst (extractPlugin X (dstPath X pluginsDir currPlugin)
                  (tgzPath X downloadsDir currPlugin) fs1) = Some err"
  shows "fst (resolveOne X pluginsDir downloadsDir osArch param currPlugin w)
           = Inl (Wrapf err ''failed to extract plugin from archive into destination'')
       \<and> files (snd (resolveOne X pluginsDir downloadsDir osArch param currPlugin w))
           (dstPath X pluginsDir currPlugin) \<noteq> None
       \<and> trace (snd (resolveOne X pluginsDir downloadsDir osArch param currPlugin w))
           = trace w @ [Stat (dstPath X pluginsDir currPlugin),
                        Fetch (tgzPath X downloadsDir currPlugin),
                        Unpack (dstPath X pluginsDir currPlugin)]"
proof -
  let ?dst = "dstPath X pluginsDir currPlugin" and ?tgz = "tgzPath X downloadsDir currPlugin"
  obtain e fs2 where ex: "extractPlugin X ?dst ?tgz fs1 = (e, fs2)"
    by (cases "extractPlugin X ?dst ?tgz fs1")
  with assms(4) have e: "e = Some err" by simp
  have kept: "fs2 ?dst \<noteq> None"
    using ex assms(3)
    by (auto simp: extractPlugin_def Let_def split: option.splits prod.splits)
  show ?thesis
    using assms(1,2) ex e kept
    by (simp add: resolveOne_def installPlugin_def emit_def Let_def dstPath_def tgzPath_def
        locatorOf_def)
qed

theorem failed_unpack_leaves_file_witness:
  "fst (resolveOne demoSys ''/h/plugins'' ''/h/downloads'' (''linux'', ''amd64'') badArchiveParams
          (pluginCfg locA ''!'' Map.empty) emptyWorld)
     = Inl (Wrapf ''archive is not readable'' ''failed to extract plugin from archive into destination'')
   \<and> files (snd (resolveOne demoSys ''/h/plugins'' ''/h/downloads'' (''linux'', ''amd64'')
                    badArchiveParams (pluginCfg locA ''!'' Map.empty) emptyWorld))
       ''/h/plugins/com.palantir-a-1.0.0'' \<noteq> None
   \<and> trace (snd (resolveOne demoSys ''/h/plugins'' ''/h/downloads'' (''linux'', ''amd64'')
                    badArchiveParams (pluginCfg locA ''!'' Map.empty) emptyWorld))
       = [Stat ''/h/plugins/com.palantir-a-1.0.0'', Fetch ''/h/downloads/com.palantir-a-1.0.0.tgz'',
          Unpack ''/h/plugins/com.palantir-a-1.0.0'']"
proof -
  let ?c = "pluginCfg locA ''!'' Map.empty"
  have p: "dstPath demoSys ''/h/plugins'' ?c = ''/h/plugins/com.palantir-a-1.0.0''"
    and t: "tgzPath demoSys ''/h/downloads'' ?c = ''/h/downloads/com.palantir-a-1.0.0.tgz''"
    by (simp_all add: dstPath_def tgzPath_def locatorOf_def pluginFileName_def demo_defs)
  have a1: "files emptyWorld (dstPath demoSys ''/h/plugins'' ?c) = None"
    by (simp add: emptyWorld_def)
  have a2: "resolvePluginTGZ demoSys ?c (DefaultResolvers badArchiveParams) (''linux'', ''amd64'')
              (tgzPath demoSys ''/h/downloads'' ?c) (files emptyWorld)
            = (None, [''/h/downloads/com.palantir-a-1.0.0.tgz'' \<mapsto> ''!''])"
    unfolding t by (simp add: demoSys_def pluginCfg_def emptyWorld_def)
  have a3: "createError demoSys (dstPath demoSys ''/h/plugins'' ?c) = None"
    by (simp add: demoSys_def)
  have a4: "fst (extractPlugin demoSys (dstPath demoSys ''/h/plugins'' ?c)
                   (tgzPath demoSys ''/h/downloads'' ?c)
                   [''/h/downloads/com.palantir-a-1.0.0.tgz'' \<mapsto> ''!''])
              = Some ''archive is not readable''"
    unfolding p t by (simp add: extractPlugin_def demoSys_def)
  from failed_unpack_leaves_file[OF a1 a2 a3 a4]
  show ?thesis by (simp add: p t emptyWorld_def)
qed

text \<open>
  A failed unpacking leaves a file at the install path: here the file holds the bytes written
  before the failure, and the next resolution of the plugin takes it as installed.
\<close>

theorem failed_unpack_counterexample:
  "fst (resolveOne demoSys ''/h/plugins'' ''/h/downloads'' (''linux'', ''amd64'') badArchiveParams
          (pluginCfg locA ''!'' Map.empty) emptyWorld)
     = Inl ''failed to extract plugin from archive into destination: archive is not readable''
   \<and> files (snd (resolveOne demoSys ''/h/plugins'' ''/h/downloads'' (''linux'', ''amd64'')
                    badArchiveParams (pluginCfg locA ''!'' Map.empty) emptyWorld))
       ''/h/plugins/com.palantir-a-1.0.0'' = Some ''#''
   \<and> fst (resolveOne demoSys ''/h/plugins'' ''/h/downloads'' (''linux'', ''amd64'') badArchiveParams
            (pluginCfg locA ''!'' Map.empty)
            (snd (resolveOne demoSys ''/h/plugins'' ''/h/downloads'' (''linux'', ''amd64'')
                    badArchiveParams (pluginCfg locA ''!'' Map.empty) emptyWorld)))
       = Inr (echoInfo [''#''])"
  by (simp add: badArchiveParams_def demo_defs model_defs Let_def)

subsection \<open>The arguments in verify mode\<close>

text \<open>
  Claim C8. In verify mode the arguments of the user are not passed to the plugin. With
  \<^verbatim>\<open>apply=true\<close> the arguments end with the command of the task; with
  \<^verbatim>\<open>apply=false\<close> the tokens the task declares for it follow the command. A direct
  invocation passes the arguments of the user after the command.
\<close>
theorem verify_mode_arguments:
  "taskArgv global t (Verify applyChanges) userArgs = taskArgv global t (Verify applyChanges) []
   \<and> taskArgv global t (Verify True) userArgs
       = [ExecPath t] @ globalFlagArgs global t @ [Command (Declared t)]
   \<and> taskArgv global t (Verify False) userArgs
       = [ExecPath t] @ globalFlagArgs global t @ [Command (Declared t)]
         @ (case ApplyFalseArgs (Declared t) of None \<Rightarrow> [] | Some tokens \<Rightarrow> tokens)
   \<and> taskArgv global t Direct userArgs
       = [ExecPath t] @ globalFlagArgs global t @ [Command (Declared t)] @ userArgs"
  by (simp add: taskArgv_def)

theorem verify_mode_arguments_witness:
  "taskArgv projectGlobal echoBound (Verify True) [''foo'', ''--bar'', ''baz'']
     = [''/h/plugins/com.palantir-tester-1.0.0'', ''--project-dir'', ''/project'',
        ''--godel-config'', ''/project/godel/config/godel.yml'',
        ''--config'', ''/project/godel/config/echo.yml'', ''echo'']
   \<and> taskArgv projectGlobal echoBound (Verify False) [''foo'', ''--bar'', ''baz'']
     = [''/h/plugins/com.palantir-tester-1.0.0'', ''--project-dir'', ''/project'',
        ''--godel-config'', ''/project/godel/config/godel.yml'',
        ''--config'', ''/project/godel/config/echo.yml'', ''echo'', ''--verify'']
   \<and> taskArgv projectGlobal echoBound Direct [''foo'', ''--bar'', ''baz'']
     = [''/h/plugins/com.palantir-tester-1.0.0'', ''--project-dir'', ''/project'',
        ''--godel-config'', ''/project/godel/config/godel.yml'',
        ''--config'', ''/project/godel/config/echo.yml'', ''echo'', ''foo'', ''--bar'', ''baz'']"
proof -
  have g: "globalFlagArgs projectGlobal echoBound
             = [''--project-dir'', ''/project'', ''--godel-config'',
                ''/project/godel/config/godel.yml'', ''--config'', ''/project/godel/config/echo.yml'']"
    by (simp add: globalFlagArgs_def echoBound_def projectGlobal_def Tasks_def echoInfo_def
        echoTask_def)
  have e: "ExecPath echoBound = ''/h/plugins/com.palantir-tester-1.0.0''"
    "Command (Declared echoBound) = ''echo''"
    "ApplyFalseArgs (Declared echoBound) = Some [''--verify'']"
    by (simp_all add: echoBound_def Tasks_def echoInfo_def echoTask_def)
  from verify_mode_arguments[where global = projectGlobal and t = echoBound and applyChanges = True
      and userArgs = "[''foo'', ''--bar'', ''baz'']", THEN conjunct2]
  show ?thesis by (simp add: g e)
qed

subsection \<open>Resolving twice\<close>

text \<open>
  Claim C1, as amended. Let a download change at most the file at its destination, let the
  digest and the information of a plugin depend on the content of its file only, and let no
  archive path be the path of a plugin file. After a resolution that succeeded, a second
  resolution with the same configuration returns the same plugins, so that
  \<^verbatim>\<open>LoadPluginsTasks\<close> returns the same result, and leaves the file system as it is.
  Its work is, for each declared plugin in turn, the existence check of the plugin file, the
  checksum of the file when one is configured for the operating system and architecture, and
  the information of the plugin: nothing is downloaded and nothing is unpacked.
\<close>
theorem second_resolution:
  assumes "\<forall>c rs oa dst fs p. p \<noteq> dst \<longrightarrow> snd (resolvePluginTGZ X c rs oa dst fs) p = fs p"
      and "\<forall>p fs fs'. fs p = fs' p \<longrightarrow>
             sha256ChecksumFile X p fs = sha256ChecksumFile X p fs'
             \<and> InfoFromPlugin X p fs = InfoFromPlugin X p fs'"
      and "projectParamsFromConfig X cfg = Inr param"
      and "homeSpecDir X = Inr (pd, dd)"
      and "\<forall>c\<in>set (Plugins param). \<forall>c'\<in>set (Plugins param).
             tgzPath X dd c' \<noteq> dstPath X pd c"
      and "map_option fst (resolvePlugins X pd dd (currentOSArch X) param w0) = Some (Inr plugins)"
  shows "resolvePlugins X pd dd (currentOSArch X) param
           (worldAfter X pd dd (currentOSArch X) param w0)
         = Some (Inr plugins,
                 (worldAfter X pd dd (currentOSArch X) param w0)
                   \<lparr>trace := trace (worldAfter X pd dd (currentOSArch X) param w0)
                             @ concat (map (rerunEvents X pd (currentOSArch X)) (Plugins param))\<rparr>)
       \<and> map_option fst (LoadPluginsTasks X cfg (worldAfter X pd dd (currentOSArch X) param w0))
           = map_option fst (LoadPluginsTasks X cfg w0)"
proof -
  let ?oa = "currentOSArch X"
  let ?w1 = "worldAfter X pd dd ?oa param w0"
  let ?w2 = "?w1\<lparr>trace := trace ?w1 @ concat (map (rerunEvents X pd ?oa) (Plugins param))\<rparr>"
  obtain pl er w1 where loop: "resolveLoop X pd dd ?oa param (Plugins param) [] [] w0 = (pl, er, w1)"
    by (cases "resolveLoop X pd dd ?oa param (Plugins param) [] [] w0")
  from assms(6) resolvePlugins_char[OF loop] have er: "er = []" and pl: "pl = plugins"
    by (auto split: if_splits)
  have w1: "?w1 = w1" using loop by (simp add: worldAfter_def)
  have loop1: "resolveLoop X pd dd ?oa param (Plugins param) [] [] w0 = (plugins, [], w1)"
    using loop er pl by simp
  have "\<forall>c\<in>set (Plugins param). files w1 (dstPath X pd c) = files w1 (dstPath X pd c)"
    by simp
  from resolveLoop_rerun[OF assms(1,2) loop1 assms(5) this]
  have loop2: "resolveLoop X pd dd ?oa param (Plugins param) [] [] ?w1 = (plugins, [], ?w2)"
    using w1 by simp
  from resolvePlugins_char[OF loop2]
  have r2: "resolvePlugins X pd dd ?oa param ?w1 = Some (Inr plugins, ?w2)" by simp
  from LoadPluginsTasks_char[OF assms(3,4) loop1] LoadPluginsTasks_char[OF assms(3,4) loop2]
  have "map_option fst (LoadPluginsTasks X cfg ?w1) = map_option fst (LoadPluginsTasks X cfg w0)"
    by simp
  with r2 show ?thesis by simp
qed

theorem second_resolution_witness:
  "resolvePlugins demoSys ''/h/plugins'' ''/h/downloads'' (currentOSArch demoSys) checksumParams
     (worldAfter demoSys ''/h/plugins'' ''/h/downloads'' (currentOSArch demoSys) checksumParams
        emptyWorld)
   = Some (Inr [(locB, echoInfo [''lint'']), (locA, echoInfo [''test''])],
           (worldAfter demoSys ''/h/plugins'' ''/h/downloads'' (currentOSArch demoSys)
              checksumParams emptyWorld)
             \<lparr>trace := trace (worldAfter demoSys ''/h/plugins'' ''/h/downloads''
                                (currentOSArch demoSys) checksumParams emptyWorld)
                       @ concat (map (rerunEvents demoSys ''/h/plugins'' (currentOSArch demoSys))
                                   (Plugins checksumParams))\<rparr>)
   \<and> map_option fst (LoadPluginsTasks demoSys checksumParams
                        (worldAfter demoSys ''/h/plugins'' ''/h/downloads''
                           (currentOSArch demoSys) checksumParams emptyWorld))
       = map_option fst (LoadPluginsTasks demoSys checksumParams emptyWorld)
   \<and> concat (map (rerunEvents demoSys ''/h/plugins'' (currentOSArch demoSys))
                (Plugins checksumParams))
       = [Stat ''/h/plugins/com.palantir-b-1.0.0'', InfoProbe ''/h/plugins/com.palantir-b-1.0.0'',
          Stat ''/h/plugins/com.palantir-a-1.0.0'', Checksum ''/h/plugins/com.palantir-a-1.0.0'',
          InfoProbe ''/h/plugins/com.palantir-a-1.0.0'']"
proof -
  have frame: "\<forall>c rs oa dst fs p. p \<noteq> dst \<longrightarrow>
                 snd (resolvePluginTGZ demoSys c rs oa dst fs) p = fs p"
    by (simp add: demoSys_def)
  have loc: "\<forall>p fs fs'. fs p = fs' p \<longrightarrow>
               sha256ChecksumFile demoSys p fs = sha256ChecksumFile demoSys p fs'
               \<and> InfoFromPlugin demoSys p fs = InfoFromPlugin demoSys p fs'"
    by (simp add: demoSys_def)
  have a1: "projectParamsFromConfig demoSys checksumParams = Inr checksumParams"
    by (simp add: demoSys_def)
  have a2: "homeSpecDir demoSys = Inr (''/h/plugins'', ''/h/downloads'')"
    by (simp add: demoSys_def)
  have paths: "\<forall>c\<in>set (Plugins checksumParams). \<forall>c'\<in>set (Plugins checksumParams).
                 tgzPath demoSys ''/h/downloads'' c' \<noteq> dstPath demoSys ''/h/plugins'' c"
    by (simp add: checksumParams_def tgzPath_def dstPath_def locatorOf_def pluginFileName_def
        demo_defs)
  have first: "map_option fst (resolvePlugins demoSys ''/h/plugins'' ''/h/downloads''
                                 (currentOSArch demoSys) checksumParams emptyWorld)
                 = Some (Inr [(locB, echoInfo [''lint'']), (locA, echoInfo [''test''])])"
    by (simp add: resolvePlugins_def summarize_def checksumParams_def lowerChecksum_def
        demo_defs model_defs Let_def)
  have ev: "concat (map (rerunEvents demoSys ''/h/plugins'' (currentOSArch demoSys))
                      (Plugins checksumParams))
       = [Stat ''/h/plugins/com.palantir-b-1.0.0'', InfoProbe ''/h/plugins/com.palantir-b-1.0.0'',
          Stat ''/h/plugins/com.palantir-a-1.0.0'', Checksum ''/h/plugins/com.palantir-a-1.0.0'',
          InfoProbe ''/h/plugins/com.palantir-a-1.0.0'']"
    by (simp add: rerunEvents_def checksumParams_def lowerChecksum_def dstPath_def locatorOf_def
        pluginFileName_def demo_defs)
  from second_resolution[OF frame loc a1 a2 paths first] ev
  show ?thesis by (intro conjI) simp_all
qed

text \<open>
  The second resolution does compute checksums: for a plugin with a configured checksum its
  trace holds the checksum of the plugin file, after the existence check.
\<close>

theorem second_resolution_counterexample:
  "map_option fst (resolvePlugins demoSys ''/h/plugins'' ''/h/downloads'' (''linux'', ''amd64'')
                     checksumParams emptyWorld)
     = Some (Inr [(locB, echoInfo [''lint'']), (locA, echoInfo [''test''])])
   \<and> trace (worldAfter demoSys ''/h/plugins'' ''/h/downloads'' (''linux'', ''amd64'') checksumParams
              ((worldAfter demoSys ''/h/plugins'' ''/h/downloads'' (''linux'', ''amd64'')
                  checksumParams emptyWorld)\<lparr>trace := []\<rparr>))
     = [Stat ''/h/plugins/com.palantir-b-1.0.0'', InfoProbe ''/h/plugins/com.palantir-b-1.0.0'',
        Stat ''/h/plugins/com.palantir-a-1.0.0'', Checksum ''/h/plugins/com.palantir-a-1.0.0'',
        InfoProbe ''/h/plugins/com.palantir-a-1.0.0'']"
  by (simp add: resolvePlugins_def summarize_def worldAfter_def checksumParams_def
      lowerChecksum_def demo_defs model_defs Let_def)

end
